theory Spec2Isabelle
  imports Complex_Main
begin

section \<open>Values\<close>

text \<open>
  The repository holds two Node.js utilities: the schema-aware exporter
  (\<^verbatim>\<open>analyzeFieldTypes\<close>, \<^verbatim>\<open>flattenObject\<close>, \<^verbatim>\<open>generateInsertSQL\<close>) and the
  schema-aware importer (\<^verbatim>\<open>castToType\<close>, \<^verbatim>\<open>validateDocument\<close>,
  \<^verbatim>\<open>importCollectionData\<close>). Each has its own copy of \<^verbatim>\<open>getValueType\<close>.

  A JavaScript number is a double. Its finite values are rationals; the
  three special values are kept apart. Negative zero is identified with zero
  (the code never divides by a number). Arithmetic that rounds is taken from
  the runtime (see \<open>runtime\<close> below), comparisons are exact.
\<close>

datatype jsnum = NaN | PosInf | NegInf | Fin rat

fun isNaN :: "jsnum \<Rightarrow> bool" where
  "isNaN NaN = True"
| "isNaN _ = False"

text \<open>\<^verbatim>\<open>a > b\<close> on numbers: false as soon as one side is NaN.\<close>

fun js_gt :: "jsnum \<Rightarrow> jsnum \<Rightarrow> bool" where
  "js_gt NaN _ = False"
| "js_gt _ NaN = False"
| "js_gt PosInf b = (b \<noteq> PosInf)"
| "js_gt NegInf _ = False"
| "js_gt (Fin x) PosInf = False"
| "js_gt (Fin x) NegInf = True"
| "js_gt (Fin x) (Fin y) = (y < x)"

text \<open>
  A document as the exporter sees it: a tree. A date carries its time value in
  milliseconds (\<open>None\<close> is the invalid date), an ObjectId its 24 hex digits;
  it is an instance of the driver's class of that name, \<^verbatim>\<open>ObjectId\<close>.
  An object is the list of its own enumerable properties in the order
  JavaScript enumerates them. All of them are data properties, and any name
  can occur, also one that a member of \<^verbatim>\<open>Object.prototype\<close> has
  (\<^verbatim>\<open>constructor\<close>, \<^verbatim>\<open>hasOwnProperty\<close>, \<^verbatim>\<open>toString\<close>, \<^verbatim>\<open>__proto__\<close>, ...): the own
  property then hides the inherited member. \<^verbatim>\<open>Object.prototype\<close> itself and
  the other built-in objects are as Node.js starts with them whenever one of
  the functions below is called.
\<close>

datatype jsval =
    JNull
  | JUndefined
  | JString string
  | JNumber jsnum
  | JBool bool
  | JDate "int option"
  | JObjectId string
  | JArray "jsval list"
  | JObject "(string \<times> jsval) list"

text \<open>
  The importer mutates objects in place (\<^verbatim>\<open>finalValue[nestedField] = ...\<close>), so
  there objects and arrays live in a store and a value refers to them by
  address. Allocation appends a cell; an address is an index into the store.
  Dates and ObjectIds are never written to and are kept as values.
\<close>

type_synonym addr = nat

datatype val =
    VNull
  | VUndefined
  | VString string
  | VNumber jsnum
  | VBool bool
  | VDate "int option"
  | VObjectId string
  | VRef addr

datatype cell = Obj "(string \<times> val) list" | Arr "val list"

type_synonym heap = "cell list"

definition cell_at :: "heap \<Rightarrow> addr \<Rightarrow> cell option" where
  "cell_at H a = (if a < length H then Some (H ! a) else None)"

subsection \<open>The order of the properties of an object\<close>

text \<open>
  JavaScript enumerates the own properties of an object with the array
  indices first, in ascending order, and the other names after them in the
  order they were created. An array index is the decimal text, without
  leading zeros, of an integer below \<open>2^32 - 1\<close>.
\<close>

definition is_digit :: "char \<Rightarrow> bool" where
  "is_digit c \<longleftrightarrow> c \<in> set ''0123456789''"

definition digit_value :: "char \<Rightarrow> nat" where
  "digit_value c = (of_char c :: nat) - 48"

definition decimal :: "string \<Rightarrow> nat" where
  "decimal s = foldl (\<lambda>acc c. 10 * acc + digit_value c) 0 s"

definition array_index :: "string \<Rightarrow> nat option" where
  "array_index k =
     (if k \<noteq> [] \<and> list_all is_digit k \<and> (k = ''0'' \<or> hd k \<noteq> CHR ''0'')
         \<and> decimal k < 4294967295
      then Some (decimal k) else None)"

text \<open>Giving a new value to a property that exists: it keeps its place.\<close>

fun update_entry :: "string \<Rightarrow> 'a \<Rightarrow> (string \<times> 'a) list \<Rightarrow> (string \<times> 'a) list" where
  "update_entry k x [] = []"
| "update_entry k x ((k', y) # kvs) =
     (if k' = k then (k, x) # kvs else (k', y) # update_entry k x kvs)"

text \<open>
  Creating a property whose name is the array index \<open>i\<close>: it comes after
  the indices below \<open>i\<close> and before every other property.
\<close>

fun insert_index :: "nat \<Rightarrow> string \<Rightarrow> 'a \<Rightarrow> (string \<times> 'a) list \<Rightarrow> (string \<times> 'a) list" where
  "insert_index i k x [] = [(k, x)]"
| "insert_index i k x ((k', y) # kvs) =
     (case array_index k' of
        None \<Rightarrow> (k, x) # (k', y) # kvs
      | Some j \<Rightarrow> if j < i then (k', y) # insert_index i k x kvs else (k, x) # (k', y) # kvs)"

text \<open>Creating a property: an array index goes to its place, any other name comes last.\<close>

definition create_entry :: "string \<Rightarrow> 'a \<Rightarrow> (string \<times> 'a) list \<Rightarrow> (string \<times> 'a) list" where
  "create_entry k x kvs =
     (case array_index k of None \<Rightarrow> kvs @ [(k, x)] | Some i \<Rightarrow> insert_index i k x kvs)"

text \<open>
  \<^verbatim>\<open>obj[k] = x\<close> on the own data properties of an object (where no setter is
  inherited under the name \<open>k\<close>).
\<close>

definition set_entry :: "string \<Rightarrow> 'a \<Rightarrow> (string \<times> 'a) list \<Rightarrow> (string \<times> 'a) list" where
  "set_entry k x kvs =
     (if map_of kvs k = None then create_entry k x kvs else update_entry k x kvs)"

text \<open>
  A list of names is the list of keys of an object when creating the
  properties in this order gives this order back: no name twice, the array
  indices first and ascending.
\<close>

definition enumeration_order :: "string list \<Rightarrow> bool" where
  "enumeration_order ks \<longleftrightarrow> map fst (foldl (\<lambda>kvs k. set_entry k () kvs) [] ks) = ks"

section \<open>The runtime\<close>

text \<open>
  Built-ins of ECMAScript and of the MongoDB driver that the code calls and
  that are not part of the repository are parameters:
  \<^verbatim>\<open>Number(s)\<close>, \<^verbatim>\<open>String(n)\<close>, \<^verbatim>\<open>new Date(s).getTime()\<close>,
  \<^verbatim>\<open>date.toISOString()\<close>, \<^verbatim>\<open>JSON.parse\<close> (\<open>None\<close> is the SyntaxError),
  \<^verbatim>\<open>JSON.stringify\<close>, \<^verbatim>\<open>ObjectId.isValid\<close>, \<^verbatim>\<open>new ObjectId(s)\<close> and the
  multiplication of doubles.

  Which own enumerable properties an instance of the driver's \<^verbatim>\<open>ObjectId\<close>
  has depends on the version of the driver: none where the twelve bytes are
  kept under a symbol, the byte buffer where they are kept under a name.
  \<open>ObjectId_walk\<close> gives what the walk of \<^verbatim>\<open>analyzeObject\<close> over such an
  instance records: the paths below the instance, each with its type tag, in
  the order they are met.
\<close>

record runtime =
  Number_string :: "string \<Rightarrow> jsnum"
  String_number :: "jsnum \<Rightarrow> string"
  Date_parse :: "string \<Rightarrow> int option"
  Date_toISOString :: "int \<Rightarrow> string"
  JSON_parse :: "string \<Rightarrow> jsval option"
  JSON_stringify :: "jsval \<Rightarrow> string"
  ObjectId_isValid :: "string \<Rightarrow> bool"
  ObjectId_new :: "string \<Rightarrow> string"
  times :: "jsnum \<Rightarrow> jsnum \<Rightarrow> jsnum"
  ObjectId_walk :: "string \<Rightarrow> (string \<times> string) list"

text \<open>
  What a \<^verbatim>\<open>throw\<close> carries. \<open>Unmodelled\<close> is no error of JavaScript: it
  marks a run that leaves what is modelled here.
\<close>

datatype error =
    Error string
  | TypeError string
  | RangeError string
  | SyntaxError string
  | Unmodelled string

section \<open>The type classifier\<close>

text \<open>
  What \<^verbatim>\<open>value.constructor\<close> reads on a value that is not null or undefined:
  a built-in constructor, known here by its name, or the own property
  \<^verbatim>\<open>constructor\<close> of a plain object.
\<close>

datatype 'v ctor = Builtin string | Own 'v

subsection \<open>Exporter: \<^verbatim>\<open>typeof\<close>, \<^verbatim>\<open>Array.isArray\<close>, \<^verbatim>\<open>instanceof Date\<close>\<close>

fun typeof_export :: "jsval \<Rightarrow> string" where
  "typeof_export JNull = ''object''"
| "typeof_export JUndefined = ''undefined''"
| "typeof_export (JString s) = ''string''"
| "typeof_export (JNumber n) = ''number''"
| "typeof_export (JBool b) = ''boolean''"
| "typeof_export (JDate d) = ''object''"
| "typeof_export (JObjectId x) = ''object''"
| "typeof_export (JArray xs) = ''object''"
| "typeof_export (JObject kvs) = ''object''"

fun isArray_export :: "jsval \<Rightarrow> bool" where
  "isArray_export (JArray xs) = True"
| "isArray_export _ = False"

fun instanceofDate_export :: "jsval \<Rightarrow> bool" where
  "instanceofDate_export (JDate d) = True"
| "instanceofDate_export _ = False"

text \<open>
  \<^verbatim>\<open>value.constructor\<close>. On null and undefined the access throws a
  TypeError.
\<close>

fun constructor_export :: "jsval \<Rightarrow> error + jsval ctor" where
  "constructor_export JNull =
     Inl (TypeError ''Cannot read properties of null (reading constructor)'')"
| "constructor_export JUndefined =
     Inl (TypeError ''Cannot read properties of undefined (reading constructor)'')"
| "constructor_export (JString s) = Inr (Builtin ''String'')"
| "constructor_export (JNumber n) = Inr (Builtin ''Number'')"
| "constructor_export (JBool b) = Inr (Builtin ''Boolean'')"
| "constructor_export (JDate d) = Inr (Builtin ''Date'')"
| "constructor_export (JObjectId x) = Inr (Builtin ''ObjectId'')"
| "constructor_export (JArray xs) = Inr (Builtin ''Array'')"
| "constructor_export (JObject kvs) =
     (case map_of kvs ''constructor'' of
        None \<Rightarrow> Inr (Builtin ''Object'')
      | Some c \<Rightarrow> Inr (Own c))"

text \<open>
  \<^verbatim>\<open>c.name\<close> for what \<^verbatim>\<open>value.constructor\<close> gave. An own property
  \<^verbatim>\<open>constructor\<close> that is null or undefined makes the access throw; one that
  is a plain object has the name its own property \<^verbatim>\<open>name\<close> holds; every other
  value has no property \<^verbatim>\<open>name\<close>.
\<close>

fun name_export :: "jsval ctor \<Rightarrow> error + jsval" where
  "name_export (Builtin n) = Inr (JString n)"
| "name_export (Own JNull) =
     Inl (TypeError ''Cannot read properties of null (reading name)'')"
| "name_export (Own JUndefined) =
     Inl (TypeError ''Cannot read properties of undefined (reading name)'')"
| "name_export (Own (JObject kvs)) =
     (case map_of kvs ''name'' of None \<Rightarrow> Inr JUndefined | Some n \<Rightarrow> Inr n)"
| "name_export (Own c) = Inr JUndefined"

text \<open>\<^verbatim>\<open>value.constructor.name\<close>, with no test in between.\<close>

definition constructor_name_export :: "jsval \<Rightarrow> error + jsval" where
  "constructor_name_export v =
     (case constructor_export v of Inl e \<Rightarrow> Inl e | Inr c \<Rightarrow> name_export c)"

text \<open>
  \<^verbatim>\<open>getValueType\<close> of the exporter. Its fifth line is
  \<^verbatim>\<open>typeof value === 'object' && value.constructor.name === 'ObjectId'\<close>: the
  constructor is not tested before its name is read, so the line throws on a
  plain object that has an own property \<^verbatim>\<open>constructor\<close> holding null.
\<close>

definition getValueType_export :: "jsval \<Rightarrow> error + string" where
  "getValueType_export v =
     (if v = JNull then Inr ''null''
      else if v = JUndefined then Inr ''undefined''
      else if isArray_export v then Inr ''array''
      else if instanceofDate_export v then Inr ''date''
      else if typeof_export v = ''object'' then
        (case constructor_name_export v of
           Inl e \<Rightarrow> Inl e
         | Inr n \<Rightarrow> if n = JString ''ObjectId'' then Inr ''objectId'' else Inr (typeof_export v))
      else Inr (typeof_export v))"

subsection \<open>Importer: objects in the store\<close>

definition own_properties :: "heap \<Rightarrow> val \<Rightarrow> (string \<times> val) list" where
  "own_properties H v =
     (case v of
        VRef a \<Rightarrow> (case cell_at H a of Some (Obj kvs) \<Rightarrow> kvs | _ \<Rightarrow> [])
      | _ \<Rightarrow> [])"

text \<open>
  \<^verbatim>\<open>obj[k]\<close> where \<open>k\<close> is no member of the prototype of \<open>obj\<close>, or is an own
  property of it: the own property, or undefined.
\<close>

definition get_property :: "heap \<Rightarrow> val \<Rightarrow> string \<Rightarrow> val" where
  "get_property H v k =
     (case map_of (own_properties H v) k of None \<Rightarrow> VUndefined | Some x \<Rightarrow> x)"

subsection \<open>Importer\<close>

fun typeof :: "val \<Rightarrow> string" where
  "typeof VNull = ''object''"
| "typeof VUndefined = ''undefined''"
| "typeof (VString s) = ''string''"
| "typeof (VNumber n) = ''number''"
| "typeof (VBool b) = ''boolean''"
| "typeof (VDate d) = ''object''"
| "typeof (VObjectId x) = ''object''"
| "typeof (VRef a) = ''object''"

text \<open>A reference to no cell cannot arise in JavaScript; it counts as a plain object.\<close>

fun isArray :: "heap \<Rightarrow> val \<Rightarrow> bool" where
  "isArray H (VRef a) = (case cell_at H a of Some (Arr xs) \<Rightarrow> True | _ \<Rightarrow> False)"
| "isArray H _ = False"

fun instanceofDate :: "val \<Rightarrow> bool" where
  "instanceofDate (VDate d) = True"
| "instanceofDate _ = False"

text \<open>
  \<^verbatim>\<open>value.constructor\<close>; \<open>None\<close> on null and undefined, where the access
  throws a TypeError.
\<close>

fun constructor_of :: "heap \<Rightarrow> val \<Rightarrow> val ctor option" where
  "constructor_of H VNull = None"
| "constructor_of H VUndefined = None"
| "constructor_of H (VString s) = Some (Builtin ''String'')"
| "constructor_of H (VNumber n) = Some (Builtin ''Number'')"
| "constructor_of H (VBool b) = Some (Builtin ''Boolean'')"
| "constructor_of H (VDate d) = Some (Builtin ''Date'')"
| "constructor_of H (VObjectId x) = Some (Builtin ''ObjectId'')"
| "constructor_of H (VRef a) =
     (if isArray H (VRef a) then Some (Builtin ''Array'')
      else case map_of (own_properties H (VRef a)) ''constructor'' of
             None \<Rightarrow> Some (Builtin ''Object'')
           | Some c \<Rightarrow> Some (Own c))"

text \<open>The truth value of a condition.\<close>

fun truthy :: "val \<Rightarrow> bool" where
  "truthy VNull = False"
| "truthy VUndefined = False"
| "truthy (VString s) = (s \<noteq> [])"
| "truthy (VNumber n) = (n \<noteq> Fin 0 \<and> n \<noteq> NaN)"
| "truthy (VBool b) = b"
| "truthy (VDate d) = True"
| "truthy (VObjectId x) = True"
| "truthy (VRef a) = True"

fun truthy_ctor :: "val ctor \<Rightarrow> bool" where
  "truthy_ctor (Builtin n) = True"
| "truthy_ctor (Own c) = truthy c"

text \<open>
  \<^verbatim>\<open>c.name\<close> for a constructor \<open>c\<close> that passed the test of
  \<^verbatim>\<open>value.constructor && ...\<close>: an own property \<^verbatim>\<open>constructor\<close> that is a plain
  object has the name its own property \<^verbatim>\<open>name\<close> holds; every other value has
  no property \<^verbatim>\<open>name\<close>.
\<close>

fun name_of :: "heap \<Rightarrow> val ctor \<Rightarrow> val" where
  "name_of H (Builtin n) = VString n"
| "name_of H (Own c) = get_property H c ''name''"

text \<open>
  The test \<^verbatim>\<open>typeof value === 'object' && value.constructor &&
  value.constructor.name === 'ObjectId'\<close> of the importer, on a value that is
  not null. (On null the test throws; \<^verbatim>\<open>getValueType\<close> has returned before,
  the casts that use the test have a case of their own for null.)
\<close>

definition isObjectId :: "heap \<Rightarrow> val \<Rightarrow> bool" where
  "isObjectId H v \<longleftrightarrow>
     typeof v = ''object''
     \<and> (case constructor_of H v of
          None \<Rightarrow> False
        | Some c \<Rightarrow> truthy_ctor c \<and> name_of H c = VString ''ObjectId'')"

definition getValueType :: "heap \<Rightarrow> val \<Rightarrow> string" where
  "getValueType H v =
     (if v = VNull then ''null''
      else if v = VUndefined then ''undefined''
      else if isArray H v then ''array''
      else if instanceofDate v then ''date''
      else if isObjectId H v then ''objectId''
      else typeof v)"

text \<open>The closed enumeration of type tags.\<close>

definition type_tags :: "string list" where
  "type_tags = [''null'', ''undefined'', ''string'', ''number'', ''boolean'',
                ''date'', ''objectId'', ''array'', ''object'']"

section \<open>Importer: moving between the store and JSON trees\<close>

text \<open>
  Reading the tree below a value, as \<^verbatim>\<open>JSON.stringify\<close> walks it. Every
  dereference uses one unit of fuel; with fuel \<open>length H\<close> the walk fails exactly
  when it meets a cycle (or a reference to no cell), where \<^verbatim>\<open>JSON.stringify\<close>
  throws a TypeError.
\<close>

fun reify :: "nat \<Rightarrow> heap \<Rightarrow> val \<Rightarrow> jsval option" where
  "reify n H VNull = Some JNull"
| "reify n H VUndefined = Some JUndefined"
| "reify n H (VString s) = Some (JString s)"
| "reify n H (VNumber x) = Some (JNumber x)"
| "reify n H (VBool b) = Some (JBool b)"
| "reify n H (VDate d) = Some (JDate d)"
| "reify n H (VObjectId x) = Some (JObjectId x)"
| "reify 0 H (VRef a) = None"
| "reify (Suc n) H (VRef a) =
     (case cell_at H a of
        None \<Rightarrow> None
      | Some (Obj kvs) \<Rightarrow>
          map_option JObject
            (those (map (\<lambda>(k, v). map_option (Pair k) (reify n H v)) kvs))
      | Some (Arr xs) \<Rightarrow> map_option JArray (those (map (reify n H) xs)))"

text \<open>Building a tree in the store, as \<^verbatim>\<open>JSON.parse\<close> does: every cell is new.\<close>

fun alloc :: "jsval \<Rightarrow> heap \<Rightarrow> val \<times> heap"
  and alloc_list :: "jsval list \<Rightarrow> heap \<Rightarrow> val list \<times> heap"
  and alloc_fields :: "(string \<times> jsval) list \<Rightarrow> heap \<Rightarrow> (string \<times> val) list \<times> heap"
where
  "alloc JNull H = (VNull, H)"
| "alloc JUndefined H = (VUndefined, H)"
| "alloc (JString s) H = (VString s, H)"
| "alloc (JNumber x) H = (VNumber x, H)"
| "alloc (JBool b) H = (VBool b, H)"
| "alloc (JDate d) H = (VDate d, H)"
| "alloc (JObjectId x) H = (VObjectId x, H)"
| "alloc (JArray xs) H =
     (case alloc_list xs H of (vs, H1) \<Rightarrow> (VRef (length H1), H1 @ [Arr vs]))"
| "alloc (JObject kvs) H =
     (case alloc_fields kvs H of (fs, H1) \<Rightarrow> (VRef (length H1), H1 @ [Obj fs]))"
| "alloc_list [] H = ([], H)"
| "alloc_list (x # xs) H =
     (case alloc x H of (v, H1) \<Rightarrow>
        (case alloc_list xs H1 of (vs, H2) \<Rightarrow> (v # vs, H2)))"
| "alloc_fields [] H = ([], H)"
| "alloc_fields ((k, x) # kvs) H =
     (case alloc x H of (v, H1) \<Rightarrow>
        (case alloc_fields kvs H1 of (fs, H2) \<Rightarrow> ((k, v) # fs, H2)))"

text \<open>
  What \<^verbatim>\<open>JSON.parse(JSON.stringify(x))\<close> makes of a tree: an undefined property
  is dropped, an undefined array element and a non-finite number become null,
  a date becomes its ISO string (null when invalid), an ObjectId its hex
  string. \<open>None\<close>: \<^verbatim>\<open>JSON.stringify\<close> returns undefined.
\<close>

fun JSON_roundtrip :: "runtime \<Rightarrow> jsval \<Rightarrow> jsval option"
  and JSON_roundtrip_list :: "runtime \<Rightarrow> jsval list \<Rightarrow> jsval list"
  and JSON_roundtrip_fields :: "runtime \<Rightarrow> (string \<times> jsval) list \<Rightarrow> (string \<times> jsval) list"
where
  "JSON_roundtrip h JNull = Some JNull"
| "JSON_roundtrip h JUndefined = None"
| "JSON_roundtrip h (JString s) = Some (JString s)"
| "JSON_roundtrip h (JNumber x) = Some (case x of Fin r \<Rightarrow> JNumber (Fin r) | _ \<Rightarrow> JNull)"
| "JSON_roundtrip h (JBool b) = Some (JBool b)"
| "JSON_roundtrip h (JDate d) =
     Some (case d of None \<Rightarrow> JNull | Some t \<Rightarrow> JString (Date_toISOString h t))"
| "JSON_roundtrip h (JObjectId x) = Some (JString x)"
| "JSON_roundtrip h (JArray xs) = Some (JArray (JSON_roundtrip_list h xs))"
| "JSON_roundtrip h (JObject kvs) = Some (JObject (JSON_roundtrip_fields h kvs))"
| "JSON_roundtrip_list h [] = []"
| "JSON_roundtrip_list h (x # xs) =
     (case JSON_roundtrip h x of None \<Rightarrow> JNull | Some y \<Rightarrow> y) # JSON_roundtrip_list h xs"
| "JSON_roundtrip_fields h [] = []"
| "JSON_roundtrip_fields h ((k, x) # kvs) =
     (case JSON_roundtrip h x of
        None \<Rightarrow> JSON_roundtrip_fields h kvs
      | Some y \<Rightarrow> (k, y) # JSON_roundtrip_fields h kvs)"

section \<open>Importer: type casting\<close>

text \<open>
  \<^verbatim>\<open>String.prototype.toLowerCase\<close> on the ASCII letters. The result is only
  compared with ASCII words, and no character outside ASCII has an ASCII
  letter of those words as its lower case, so the comparisons come out as in
  JavaScript.
\<close>

definition lower_char :: "char \<Rightarrow> char" where
  "lower_char c =
     (let n = (of_char c :: nat) in if 65 \<le> n \<and> n \<le> 90 then char_of (n + 32) else c)"

definition toLowerCase :: "string \<Rightarrow> string" where
  "toLowerCase s = map lower_char s"

text \<open>\<^verbatim>\<open>new Date(n)\<close> for a number: the time value after TimeClip.\<close>

definition new_Date :: "jsnum \<Rightarrow> int option" where
  "new_Date n =
     (case n of
        Fin r \<Rightarrow>
          if \<bar>r\<bar> \<le> 8640000000000000
          then Some (if 0 \<le> r then \<lfloor>r\<rfloor> else \<lceil>r\<rceil>)
          else None
      | _ \<Rightarrow> None)"

text \<open>\<^verbatim>\<open>date.getTime()\<close>.\<close>

definition getTime :: "int option \<Rightarrow> jsnum" where
  "getTime d = (case d of None \<Rightarrow> NaN | Some t \<Rightarrow> Fin (of_int t))"

text \<open>
  \<^verbatim>\<open>value.toString()\<close> on a plain object: an own property \<^verbatim>\<open>toString\<close> is
  data and cannot be called; without one the inherited method answers.
\<close>

definition toString_object :: "heap \<Rightarrow> val \<Rightarrow> error + val" where
  "toString_object H v =
     (case map_of (own_properties H v) ''toString'' of
        None \<Rightarrow> Inr (VString ''[object Object]'')
      | Some f \<Rightarrow> Inl (TypeError ''value.toString is not a function''))"

text \<open>
  Each function tries its cases in the order of the source; a \<^verbatim>\<open>throw\<close> is the
  value \<open>Inl\<close>. On null, whose \<^verbatim>\<open>typeof\<close> is \<^verbatim>\<open>object\<close>, the test
  \<^verbatim>\<open>value.constructor\<close> of \<^verbatim>\<open>castToString\<close> and \<^verbatim>\<open>castToObjectId\<close> throws a
  TypeError. A plain object that passes for an ObjectId is not an
  \<^verbatim>\<open>ObjectId\<close>: its \<^verbatim>\<open>toString\<close> is that of a plain object.
\<close>

fun castToString :: "runtime \<Rightarrow> heap \<Rightarrow> val \<Rightarrow> error + val" where
  "castToString h H (VString s) = Inr (VString s)"
| "castToString h H (VNumber n) = Inr (VString (String_number h n))"
| "castToString h H (VBool b) = Inr (VString (if b then ''true'' else ''false''))"
| "castToString h H (VDate d) =
     (case d of
        None \<Rightarrow> Inl (RangeError ''Invalid time value'')
      | Some t \<Rightarrow> Inr (VString (Date_toISOString h t)))"
| "castToString h H (VObjectId x) = Inr (VString x)"
| "castToString h H (VRef a) =
     (if isObjectId H (VRef a) then toString_object H (VRef a)
      else case reify (length H) H (VRef a) of
             None \<Rightarrow> Inl (TypeError ''Converting circular structure to JSON'')
           | Some t \<Rightarrow> Inr (VString (JSON_stringify h t)))"
| "castToString h H VNull =
     Inl (TypeError ''Cannot read properties of null (reading constructor)'')"
| "castToString h H VUndefined = Inr (VString ''undefined'')"

fun castToNumber :: "runtime \<Rightarrow> val \<Rightarrow> error + val" where
  "castToNumber h (VNumber n) = Inr (VNumber n)"
| "castToNumber h (VString s) =
     (let num = Number_string h s in
      if isNaN num then Inl (Error (''Cannot convert '' @ [CHR 0x27] @ s @ [CHR 0x27] @ '' to number''))
      else Inr (VNumber num))"
| "castToNumber h (VBool b) = Inr (VNumber (Fin (if b then 1 else 0)))"
| "castToNumber h (VDate d) = Inr (VNumber (getTime d))"
| "castToNumber h v = Inl (Error (''Cannot convert '' @ typeof v @ '' to number''))"

fun castToBoolean :: "val \<Rightarrow> error + val" where
  "castToBoolean (VBool b) = Inr (VBool b)"
| "castToBoolean (VString s) =
     (let lower = toLowerCase s in
      if lower = ''true'' \<or> lower = ''1'' \<or> lower = ''yes'' \<or> lower = ''on''
        then Inr (VBool True)
      else if lower = ''false'' \<or> lower = ''0'' \<or> lower = ''no'' \<or> lower = ''off''
        then Inr (VBool False)
      else Inl (Error (''Cannot convert string '' @ [CHR 0x27] @ s @ [CHR 0x27] @ '' to boolean'')))"
| "castToBoolean (VNumber n) = Inr (VBool (n \<noteq> Fin 0))"
| "castToBoolean v = Inl (Error (''Cannot convert '' @ typeof v @ '' to boolean''))"

fun castToDate :: "runtime \<Rightarrow> val \<Rightarrow> error + val" where
  "castToDate h (VDate d) = Inr (VDate d)"
| "castToDate h (VString s) =
     (let date = Date_parse h s in
      if isNaN (getTime date)
        then Inl (Error (''Invalid date string: '' @ [CHR 0x27] @ s @ [CHR 0x27]))
      else Inr (VDate date))"
| "castToDate h (VNumber n) =
     (let date = new_Date (if js_gt n (Fin 10000000000) then n else times h n (Fin 1000)) in
      if isNaN (getTime date)
        then Inl (Error (''Invalid timestamp: '' @ String_number h n))
      else Inr (VDate date))"
| "castToDate h v = Inl (Error (''Cannot convert '' @ typeof v @ '' to date''))"

fun castToObjectId :: "runtime \<Rightarrow> heap \<Rightarrow> val \<Rightarrow> error + val" where
  "castToObjectId h H (VString s) =
     (if ObjectId_isValid h s then Inr (VObjectId (ObjectId_new h s))
      else Inl (Error (''Invalid ObjectId string: '' @ [CHR 0x27] @ s @ [CHR 0x27])))"
| "castToObjectId h H VNull =
     Inl (TypeError ''Cannot read properties of null (reading constructor)'')"
| "castToObjectId h H v =
     (if isObjectId H v then Inr v
      else Inl (Error (''Cannot convert '' @ typeof v @ '' to ObjectId'')))"

text \<open>The two casts that build a new array or object return the extended store.\<close>

definition new_cell :: "cell \<Rightarrow> heap \<Rightarrow> val \<times> heap" where
  "new_cell c H = (VRef (length H), H @ [c])"

definition castToArray :: "runtime \<Rightarrow> heap \<Rightarrow> val \<Rightarrow> error + val \<times> heap" where
  "castToArray h H v =
     (if isArray H v then Inr (v, H)
      else case v of
        VString s \<Rightarrow>
          (case JSON_parse h s of
             Some (JArray xs) \<Rightarrow> Inr (alloc (JArray xs) H)
           | _ \<Rightarrow> Inr (new_cell (Arr [v]) H))
      | _ \<Rightarrow> Inr (new_cell (Arr [v]) H))"

definition castToObject :: "runtime \<Rightarrow> heap \<Rightarrow> val \<Rightarrow> error + val \<times> heap" where
  "castToObject h H v =
     (if typeof v = ''object'' \<and> v \<noteq> VNull \<and> \<not> isArray H v then Inr (v, H)
      else case v of
        VString s \<Rightarrow>
          (case JSON_parse h s of
             Some (JObject kvs) \<Rightarrow> Inr (alloc (JObject kvs) H)
           | _ \<Rightarrow> Inr (new_cell (Obj [(''value'', v)]) H))
      | _ \<Rightarrow> Inr (new_cell (Obj [(''value'', v)]) H))"

text \<open>The \<^verbatim>\<open>switch\<close> inside the \<^verbatim>\<open>try\<close> block of \<^verbatim>\<open>castToType\<close>.\<close>

definition with_heap :: "heap \<Rightarrow> error + val \<Rightarrow> error + val \<times> heap" where
  "with_heap H r = (case r of Inl e \<Rightarrow> Inl e | Inr v \<Rightarrow> Inr (v, H))"

definition castSwitch :: "runtime \<Rightarrow> heap \<Rightarrow> val \<Rightarrow> string \<Rightarrow> error + val \<times> heap" where
  "castSwitch h H v targetType =
     (if targetType = ''string'' then with_heap H (castToString h H v)
      else if targetType = ''number'' then with_heap H (castToNumber h v)
      else if targetType = ''boolean'' then with_heap H (castToBoolean v)
      else if targetType = ''date'' then with_heap H (castToDate h v)
      else if targetType = ''objectId'' then with_heap H (castToObjectId h H v)
      else if targetType = ''array'' then castToArray h H v
      else if targetType = ''object'' then castToObject h H v
      else Inr (v, H))"

text \<open>
  \<^verbatim>\<open>castToType\<close>: the \<^verbatim>\<open>catch\<close> block logs the error and returns the original
  value. The field path is used for the log only.
\<close>

definition castToType :: "runtime \<Rightarrow> heap \<Rightarrow> val \<Rightarrow> string \<Rightarrow> string \<Rightarrow> val \<times> heap" where
  "castToType h H v targetType fieldPath =
     (if v = VNull \<or> v = VUndefined then (v, H)
      else if getValueType H v = targetType then (v, H)
      else case castSwitch h H v targetType of
             Inl e \<Rightarrow> (v, H)
           | Inr r \<Rightarrow> r)"

text \<open>Decimal digits of a natural number, as in \<^verbatim>\<open>String(index)\<close>.\<close>

fun show_nat :: "nat \<Rightarrow> string" where
  "show_nat n =
     (if n < 10 then [''0123456789'' ! n]
      else show_nat (n div 10) @ [''0123456789'' ! (n mod 10)])"

declare show_nat.simps [simp del]

section \<open>Importer: validating a document against a schema\<close>

text \<open>
  The global \<^verbatim>\<open>IMPORT_OPTIONS\<close>, passed along explicitly. The command line can
  change every option but \<^verbatim>\<open>typeCasting\<close>. The code also reads
  \<^verbatim>\<open>IMPORT_OPTIONS.skipInvalidDocuments\<close>, which is never defined.
\<close>

record import_options =
  recreateDatabase :: bool
  recreateIndexes :: bool
  validateData :: bool
  typeCasting :: bool
  batchSize :: nat
  clearCollections :: bool
  selectiveImport :: "string list option"

definition IMPORT_OPTIONS :: import_options where
  "IMPORT_OPTIONS =
     \<lparr> recreateDatabase = True, recreateIndexes = True, validateData = True,
       typeCasting = True, batchSize = 1000, clearCollections = True,
       selectiveImport = None \<rparr>"

text \<open>
  A field schema as \<^verbatim>\<open>validateField\<close> reads it: \<^verbatim>\<open>type\<close>, \<^verbatim>\<open>required\<close> (absent is
  false), \<^verbatim>\<open>nullCount\<close>, \<^verbatim>\<open>nestedFields\<close> (its entries in order) and
  \<^verbatim>\<open>arrayElementType\<close>; \<open>None\<close> is an absent property.
\<close>

datatype fieldSchema =
  FieldSchema
    (fs_type: string)
    (fs_required: bool)
    (fs_nullCount: "nat option")
    (fs_nestedFields: "(string \<times> fieldSchema) list option")
    (fs_arrayElementType: "string option")

record collectionSchema =
  schema_name :: string
  schema_fields :: "(string \<times> fieldSchema) list"

text \<open>
  The state the closure \<^verbatim>\<open>validateField\<close> works on: the store and the three
  variables of \<^verbatim>\<open>validateDocument\<close> it captures.
\<close>

record vstate =
  heap :: heap
  errors :: "string list"
  warnings :: "string list"
  typeCastingCount :: nat

subsection \<open>Properties of an object in the store\<close>

text \<open>
  \<^verbatim>\<open>obj.hasOwnProperty(k)\<close>. The method is looked up on the object: an own
  property \<^verbatim>\<open>hasOwnProperty\<close> is data, and calling it throws a TypeError.
\<close>

definition hasOwnProperty :: "heap \<Rightarrow> val \<Rightarrow> string \<Rightarrow> error + bool" where
  "hasOwnProperty H v k =
     (case map_of (own_properties H v) ''hasOwnProperty'' of
        None \<Rightarrow> Inr (map_of (own_properties H v) k \<noteq> None)
      | Some f \<Rightarrow> Inl (TypeError ''hasOwnProperty is not a function''))"

text \<open>
  \<^verbatim>\<open>obj[k] = x\<close>, the one kind of write to the store: it changes the cell of
  \<open>obj\<close> only. The code applies it to plain objects and to properties they
  have.
\<close>

definition set_property :: "heap \<Rightarrow> val \<Rightarrow> string \<Rightarrow> val \<Rightarrow> heap" where
  "set_property H v k x =
     (case v of
        VRef a \<Rightarrow>
          (case cell_at H a of
             Some (Obj kvs) \<Rightarrow> H[a := Obj (set_entry k x kvs)]
           | _ \<Rightarrow> H)
      | _ \<Rightarrow> H)"

definition array_elements :: "heap \<Rightarrow> val \<Rightarrow> val list" where
  "array_elements H v =
     (case v of
        VRef a \<Rightarrow> (case cell_at H a of Some (Arr xs) \<Rightarrow> xs | _ \<Rightarrow> [])
      | _ \<Rightarrow> [])"

subsection \<open>\<^verbatim>\<open>validateField\<close>\<close>

text \<open>
  \<^verbatim>\<open>a !== b\<close>: NaN differs from itself; a reference equals itself only. A date
  or ObjectId that \<^verbatim>\<open>castToType\<close> returns is either its argument or was made
  from a value of another type, so comparing the two by content is comparing
  them by identity.
\<close>

definition strict_neq :: "val \<Rightarrow> val \<Rightarrow> bool" where
  "strict_neq a b \<longleftrightarrow> a = VNumber NaN \<or> a \<noteq> b"

definition required_message :: "string \<Rightarrow> string" where
  "required_message fieldPath =
     ''Required field '' @ [CHR 0x27] @ fieldPath @ [CHR 0x27] @ '' is missing''"

definition mismatch_message :: "import_options \<Rightarrow> string \<Rightarrow> string \<Rightarrow> string \<Rightarrow> string" where
  "mismatch_message opts fieldPath finalType expectedType =
     ''Field '' @ [CHR 0x27] @ fieldPath @ [CHR 0x27] @ '' has type '' @ [CHR 0x27] @ finalType
     @ [CHR 0x27] @ '', expected '' @ [CHR 0x27] @ expectedType @ [CHR 0x27]
     @ (if typeCasting opts then '' (casting failed)'' else [])"

text \<open>The branch for a null or undefined value.\<close>

definition checkMissing :: "fieldSchema \<Rightarrow> string \<Rightarrow> vstate \<Rightarrow> vstate" where
  "checkMissing fieldSchema fieldPath st =
     (if fs_required fieldSchema \<and> fs_nullCount fieldSchema = Some 0
      then st\<lparr>errors := errors st @ [required_message fieldPath]\<rparr>
      else st)"

text \<open>
  The cast and the type check after it. \<^verbatim>\<open>castToType\<close> catches every error
  itself, so the \<^verbatim>\<open>catch\<close> block around its call, which would push a
  \<^verbatim>\<open>Type casting failed\<close> warning, is never entered.
\<close>

definition castStep ::
  "runtime \<Rightarrow> import_options \<Rightarrow> val \<Rightarrow> fieldSchema \<Rightarrow> string \<Rightarrow> vstate \<Rightarrow> (val \<times> bool) \<times> vstate"
where
  "castStep h opts v fieldSchema fieldPath st =
     (let currentType = getValueType (heap st) v;
          expectedType = fs_type fieldSchema;
          (finalValue, castingPerformed, st1) =
            (if typeCasting opts \<and> currentType \<noteq> expectedType then
               (case castToType h (heap st) v expectedType fieldPath of
                  (fv, H1) \<Rightarrow>
                    if strict_neq fv v
                    then (fv, True, st\<lparr>heap := H1, typeCastingCount := typeCastingCount st + 1\<rparr>)
                    else (fv, False, st\<lparr>heap := H1\<rparr>))
             else (v, False, st));
          finalType = getValueType (heap st1) finalValue;
          st2 =
            (if finalType \<noteq> expectedType
             then st1\<lparr>warnings := warnings st1
                        @ [mismatch_message opts fieldPath finalType expectedType]\<rparr>
             else st1)
      in ((finalValue, castingPerformed), st2))"

text \<open>\<^verbatim>\<open>fieldSchema.arrayElementType\<close> is tested for truthiness: the empty string is false.\<close>

definition truthy_string :: "string option \<Rightarrow> bool" where
  "truthy_string s \<longleftrightarrow> s \<noteq> None \<and> s \<noteq> Some []"

text \<open>The schema \<^verbatim>\<open>{ type: fieldSchema.arrayElementType, required: false }\<close>.\<close>

definition elementSchema :: "string \<Rightarrow> fieldSchema" where
  "elementSchema t = FieldSchema t False None None None"

fun schema_weight :: "fieldSchema \<Rightarrow> nat"
  and entries_weight :: "(string \<times> fieldSchema) list \<Rightarrow> nat"
where
  "schema_weight (FieldSchema t r n nf aet) =
     3 * (case nf of None \<Rightarrow> 0 | Some es \<Rightarrow> entries_weight es) + 3
     + (if truthy_string aet then 2 else 0)"
| "entries_weight [] = 0"
| "entries_weight ((k, f) # es) = Suc (schema_weight f + entries_weight es)"

text \<open>
  \<^verbatim>\<open>validateField\<close> with its two loops: \<open>validateNested\<close> is the \<^verbatim>\<open>for\<close> loop
  over \<^verbatim>\<open>Object.entries(fieldSchema.nestedFields)\<close>, \<open>validateItems\<close> the
  callback of \<^verbatim>\<open>finalValue.map\<close> applied from index \<open>i\<close> on. Nothing
  catches the TypeError of \<^verbatim>\<open>finalValue.hasOwnProperty\<close>.
\<close>

function validateField ::
    "runtime \<Rightarrow> import_options \<Rightarrow> val \<Rightarrow> fieldSchema \<Rightarrow> string \<Rightarrow> vstate
      \<Rightarrow> error + (val \<times> bool) \<times> vstate"
  and validateNested ::
    "runtime \<Rightarrow> import_options \<Rightarrow> val \<Rightarrow> (string \<times> fieldSchema) list \<Rightarrow> string \<Rightarrow> bool \<Rightarrow> vstate
      \<Rightarrow> error + bool \<times> vstate"
  and validateItems ::
    "runtime \<Rightarrow> import_options \<Rightarrow> val list \<Rightarrow> string \<Rightarrow> string \<Rightarrow> nat \<Rightarrow> bool \<Rightarrow> vstate
      \<Rightarrow> error + (val list \<times> bool) \<times> vstate"
where
  "validateField h opts v (FieldSchema t r n nf aet) fieldPath st =
     (if v = VNull \<or> v = VUndefined
      then Inr ((v, False), checkMissing (FieldSchema t r n nf aet) fieldPath st)
      else
        (case castStep h opts v (FieldSchema t r n nf aet) fieldPath st of
           ((finalValue, castingPerformed), st2) \<Rightarrow>
             (let finalType = getValueType (heap st2) finalValue in
              (case (if finalType = ''object''
                     then (case nf of
                             None \<Rightarrow> Inr (castingPerformed, st2)
                           | Some es \<Rightarrow>
                               validateNested h opts finalValue es fieldPath castingPerformed st2)
                     else Inr (castingPerformed, st2)) of
                 Inl e \<Rightarrow> Inl e
               | Inr (castingPerformed3, st3) \<Rightarrow>
                   if finalType = ''array'' \<and> isArray (heap st3) finalValue \<and> truthy_string aet
                   then
                     (case validateItems h opts (array_elements (heap st3) finalValue)
                             (case aet of None \<Rightarrow> [] | Some e \<Rightarrow> e) fieldPath 0 castingPerformed3 st3 of
                        Inl e \<Rightarrow> Inl e
                      | Inr ((items, castingPerformed4), st4) \<Rightarrow>
                          (case new_cell (Arr items) (heap st4) of
                             (mapped, H5) \<Rightarrow> Inr ((mapped, castingPerformed4), st4\<lparr>heap := H5\<rparr>)))
                   else Inr ((finalValue, castingPerformed3), st3)))))"
| "validateNested h opts finalValue [] fieldPath castingPerformed st = Inr (castingPerformed, st)"
| "validateNested h opts finalValue ((nestedField, nestedSchema) # es) fieldPath castingPerformed st =
     (case hasOwnProperty (heap st) finalValue nestedField of
        Inl e \<Rightarrow> Inl e
      | Inr present \<Rightarrow>
          if present
          then
            (case validateField h opts (get_property (heap st) finalValue nestedField) nestedSchema
                    (fieldPath @ ''.'' @ nestedField) st of
               Inl e \<Rightarrow> Inl e
             | Inr ((x, c), st1) \<Rightarrow>
                 validateNested h opts finalValue es fieldPath (castingPerformed \<or> c)
                   (st1\<lparr>heap := set_property (heap st1) finalValue nestedField x\<rparr>))
          else validateNested h opts finalValue es fieldPath castingPerformed st)"
| "validateItems h opts [] t fieldPath i castingPerformed st = Inr (([], castingPerformed), st)"
| "validateItems h opts (item # items) t fieldPath i castingPerformed st =
     (case validateField h opts item (elementSchema t)
             (fieldPath @ ''['' @ show_nat i @ '']'') st of
        Inl e \<Rightarrow> Inl e
      | Inr ((x, c), st1) \<Rightarrow>
          (case validateItems h opts items t fieldPath (Suc i) (castingPerformed \<or> c) st1 of
             Inl e \<Rightarrow> Inl e
           | Inr ((xs, c'), st2) \<Rightarrow> Inr ((x # xs, c'), st2)))"
  by pat_completeness auto

termination
  apply (relation "measures [\<lambda>x. case x of
            Inl (h, opts, v, fs, p, st) \<Rightarrow> schema_weight fs
          | Inr (Inl (h, opts, fv, es, p, c, st)) \<Rightarrow> 3 * entries_weight es + 1
          | Inr (Inr (h, opts, items, t, p, i, c, st)) \<Rightarrow> 4,
        \<lambda>x. case x of
            Inl (h, opts, v, fs, p, st) \<Rightarrow> 0
          | Inr (Inl (h, opts, fv, es, p, c, st)) \<Rightarrow> 0
          | Inr (Inr (h, opts, items, t, p, i, c, st)) \<Rightarrow> length items]")
  apply (auto simp: elementSchema_def truthy_string_def)
  done

subsection \<open>\<^verbatim>\<open>validateDocument\<close>\<close>

text \<open>
  \<^verbatim>\<open>JSON.parse(JSON.stringify(doc))\<close>: the tree below \<open>doc\<close> is read from the
  store, passed through JSON, and built again in new cells.
\<close>

definition JSON_copy :: "runtime \<Rightarrow> heap \<Rightarrow> val \<Rightarrow> error + val \<times> heap" where
  "JSON_copy h H v =
     (case reify (length H) H v of
        None \<Rightarrow> Inl (TypeError ''Converting circular structure to JSON'')
      | Some t \<Rightarrow>
          (case JSON_roundtrip h t of
             None \<Rightarrow> Inl (SyntaxError ''undefined is not valid JSON'')
           | Some t' \<Rightarrow> Inr (alloc t' H)))"

definition is_plain_object :: "heap \<Rightarrow> val \<Rightarrow> bool" where
  "is_plain_object H v \<longleftrightarrow>
     (case v of
        VRef a \<Rightarrow> (case cell_at H a of Some (Obj kvs) \<Rightarrow> True | _ \<Rightarrow> False)
      | _ \<Rightarrow> False)"

text \<open>The loop over \<^verbatim>\<open>Object.entries(schema.fields)\<close>.\<close>

fun validateFields ::
  "runtime \<Rightarrow> import_options \<Rightarrow> val \<Rightarrow> (string \<times> fieldSchema) list \<Rightarrow> vstate \<Rightarrow> error + vstate"
where
  "validateFields h opts validatedDoc [] st = Inr st"
| "validateFields h opts validatedDoc ((fieldName, fieldSchema) # rest) st =
     (case hasOwnProperty (heap st) validatedDoc fieldName of
        Inl e \<Rightarrow> Inl e
      | Inr present \<Rightarrow>
          if present
          then
            (case validateField h opts (get_property (heap st) validatedDoc fieldName)
                    fieldSchema fieldName st of
               Inl e \<Rightarrow> Inl e
             | Inr ((x, c), st1) \<Rightarrow>
                 validateFields h opts validatedDoc rest
                   (st1\<lparr>heap := set_property (heap st1) validatedDoc fieldName x\<rparr>))
          else validateFields h opts validatedDoc rest (checkMissing fieldSchema fieldName st))"

text \<open>
  The report, together with the store the call leaves behind. A document is
  an object; an argument that is none is outside the model.
\<close>

record validation = vstate +
  isValid :: bool
  document :: val

definition validateDocument ::
  "runtime \<Rightarrow> import_options \<Rightarrow> val \<Rightarrow> collectionSchema \<Rightarrow> heap \<Rightarrow> error + validation"
where
  "validateDocument h opts doc schema H =
     (case JSON_copy h H doc of
        Inl e \<Rightarrow> Inl e
      | Inr (validatedDoc, H1) \<Rightarrow>
          if is_plain_object H1 validatedDoc then
            (case validateFields h opts validatedDoc (schema_fields schema)
                    \<lparr>heap = H1, errors = [], warnings = [], typeCastingCount = 0\<rparr> of
               Inl e \<Rightarrow> Inl e
             | Inr st \<Rightarrow>
                 Inr \<lparr>heap = heap st, errors = errors st, warnings = warnings st,
                      typeCastingCount = typeCastingCount st,
                      isValid = (errors st = []), document = validatedDoc\<rparr>)
          else Inl (Unmodelled ''the document is not an object''))"

section \<open>A runtime for the examples\<close>

text \<open>
  \<open>example_runtime\<close> is one instance of the runtime, used to run the code on
  concrete inputs. It agrees with Node.js on the inputs of the examples below:
  strings of decimal digits and strings with a letter for \<^verbatim>\<open>Number\<close>, integers
  for \<^verbatim>\<open>String\<close>, products of integers below \<open>2^53\<close> for the multiplication,
  text that is neither a date nor JSON for the two parsers, the time value 0
  for \<^verbatim>\<open>toISOString\<close>, and trees of strings without control characters,
  integers, booleans, null, arrays and objects for \<^verbatim>\<open>JSON.stringify\<close>. Its
  ObjectIds keep their twelve bytes in the own property \<^verbatim>\<open>buffer\<close>.
\<close>

definition example_Number :: "string \<Rightarrow> jsnum" where
  "example_Number s =
     (if s \<noteq> [] \<and> list_all is_digit s then Fin (of_nat (decimal s)) else NaN)"

definition example_String :: "jsnum \<Rightarrow> string" where
  "example_String n =
     (case n of
        NaN \<Rightarrow> ''NaN''
      | PosInf \<Rightarrow> ''Infinity''
      | NegInf \<Rightarrow> ''-Infinity''
      | Fin r \<Rightarrow> (if r < 0 then ''-'' else []) @ show_nat (nat \<lfloor>\<bar>r\<bar>\<rfloor>))"

fun example_times :: "jsnum \<Rightarrow> jsnum \<Rightarrow> jsnum" where
  "example_times (Fin x) (Fin y) = Fin (x * y)"
| "example_times PosInf (Fin y) = (if 0 < y then PosInf else if y < 0 then NegInf else NaN)"
| "example_times NegInf (Fin y) = (if 0 < y then NegInf else if y < 0 then PosInf else NaN)"
| "example_times _ _ = NaN"

definition json_string :: "string \<Rightarrow> string" where
  "json_string s =
     [CHR 0x22]
     @ concat (map (\<lambda>c. if c = CHR 0x22 \<or> c = CHR 0x5C then [CHR 0x5C, c] else [c]) s)
     @ [CHR 0x22]"

fun commas :: "string list \<Rightarrow> string" where
  "commas [] = []"
| "commas [x] = x"
| "commas (x # y # ys) = x @ '','' @ commas (y # ys)"

fun json_text :: "jsval \<Rightarrow> string"
  and json_items :: "jsval list \<Rightarrow> string list"
  and json_members :: "(string \<times> jsval) list \<Rightarrow> string list"
where
  "json_text JNull = ''null''"
| "json_text JUndefined = ''null''"
| "json_text (JString s) = json_string s"
| "json_text (JNumber n) = (case n of Fin r \<Rightarrow> example_String (Fin r) | _ \<Rightarrow> ''null'')"
| "json_text (JBool b) = (if b then ''true'' else ''false'')"
| "json_text (JDate d) = ''null''"
| "json_text (JObjectId x) = json_string x"
| "json_text (JArray xs) = ''['' @ commas (json_items xs) @ '']''"
| "json_text (JObject kvs) = ''{'' @ commas (json_members kvs) @ ''}''"
| "json_items [] = []"
| "json_items (x # xs) = json_text x # json_items xs"
| "json_members [] = []"
| "json_members ((k, x) # kvs) = (json_string k @ '':'' @ json_text x) # json_members kvs"

definition is_hex :: "char \<Rightarrow> bool" where
  "is_hex c \<longleftrightarrow> c \<in> set ''0123456789abcdefABCDEF''"

definition example_walk :: "string \<Rightarrow> (string \<times> string) list" where
  "example_walk x =
     (''buffer'', ''object'')
     # map (\<lambda>i. (''buffer.'' @ show_nat i, ''number'')) [0..<12]"

definition example_runtime :: runtime where
  "example_runtime =
     \<lparr> Number_string = example_Number,
       String_number = example_String,
       Date_parse = (\<lambda>s. None),
       Date_toISOString = (\<lambda>t. ''1970-01-01T00:00:00.000Z''),
       JSON_parse = (\<lambda>s. None),
       JSON_stringify = json_text,
       ObjectId_isValid = (\<lambda>s. length s = 24 \<and> list_all is_hex s),
       ObjectId_new = (\<lambda>s. s),
       times = example_times,
       ObjectId_walk = example_walk \<rparr>"

section \<open>Exporter: schema inference\<close>

text \<open>
  The accumulator \<^verbatim>\<open>schema\<close> of \<^verbatim>\<open>analyzeObject\<close> is a plain object \<^verbatim>\<open>{}\<close> that
  holds, for every field path, a plain object that counts the type tags
  seen there. Both are kept as the lists of their own properties, in
  enumeration order.

  Both inherit from \<^verbatim>\<open>Object.prototype\<close>, and the code reads and writes them
  with \<^verbatim>\<open>schema[fullKey]\<close> and \<^verbatim>\<open>schema[fullKey][type]\<close>, which follow the
  prototype chain. So the walk can also write to \<^verbatim>\<open>Object.prototype\<close>: the
  counts it has left there are the second component of the state.
\<close>

type_synonym type_counts = "(string \<times> nat) list"

type_synonym field_counts = "(string \<times> type_counts) list"

record tables =
  schema_object :: field_counts
  prototype_counts :: type_counts

text \<open>
  The members of \<^verbatim>\<open>Object.prototype\<close> that are functions. Its one other
  member is the accessor \<^verbatim>\<open>__proto__\<close>.
\<close>

definition prototype_functions :: "string list" where
  "prototype_functions =
     [''constructor'', ''__defineGetter__'', ''__defineSetter__'', ''hasOwnProperty'',
      ''__lookupGetter__'', ''__lookupSetter__'', ''isPrototypeOf'',
      ''propertyIsEnumerable'', ''toString'', ''valueOf'', ''toLocaleString'']"

text \<open>
  \<^verbatim>\<open>types[t]\<close> for a type tag \<open>t\<close>, where \<open>types\<close> is a table of counts: the
  own count or, failing that, a count that the walk has left on
  \<^verbatim>\<open>Object.prototype\<close>; \<open>None\<close> is undefined.
\<close>

definition read_count :: "type_counts \<Rightarrow> type_counts \<Rightarrow> string \<Rightarrow> nat option" where
  "read_count inherited types t =
     (case map_of types t of Some c \<Rightarrow> Some c | None \<Rightarrow> map_of inherited t)"

text \<open>
  \<^verbatim>\<open>types[t] = (types[t] || 0) + 1\<close>; the write makes or changes an own
  property.
\<close>

definition count_type :: "type_counts \<Rightarrow> string \<Rightarrow> type_counts \<Rightarrow> type_counts" where
  "count_type inherited t types =
     set_entry t ((case read_count inherited types t of None \<Rightarrow> 0 | Some c \<Rightarrow> c) + 1) types"

text \<open>
  \<^verbatim>\<open>if (!schema[fullKey]) schema[fullKey] = {}\<close> followed by
  \<^verbatim>\<open>schema[fullKey][type] = (schema[fullKey][type] || 0) + 1\<close>. What
  \<^verbatim>\<open>schema[fullKey]\<close> reads:
  \<^item> the table of the path, when \<^verbatim>\<open>schema\<close> has the path as own property;
  \<^item> \<^verbatim>\<open>Object.prototype\<close> itself for the path \<^verbatim>\<open>__proto__\<close>: the count is
    written there, where every plain object inherits it;
  \<^item> a built-in function for a path that names one: the count is written on
    that function, where nothing else reads it, and \<^verbatim>\<open>schema\<close> gets no entry;
  \<^item> a number, for a path that names a count left on \<^verbatim>\<open>Object.prototype\<close>: the
    assignment to a property of a number does nothing (the file is not in
    strict mode), and \<^verbatim>\<open>schema\<close> gets no entry;
  \<^item> undefined otherwise: the table is created.
\<close>

definition record_type :: "string \<Rightarrow> string \<Rightarrow> tables \<Rightarrow> tables" where
  "record_type fullKey t s =
     (case map_of (schema_object s) fullKey of
        Some types \<Rightarrow>
          s\<lparr>schema_object :=
              set_entry fullKey (count_type (prototype_counts s) t types) (schema_object s)\<rparr>
      | None \<Rightarrow>
          if fullKey = ''__proto__''
            then s\<lparr>prototype_counts := count_type [] t (prototype_counts s)\<rparr>
          else if fullKey \<in> set prototype_functions then s
          else if map_of (prototype_counts s) fullKey \<noteq> None then s
          else s\<lparr>schema_object :=
                   set_entry fullKey (count_type (prototype_counts s) t []) (schema_object s)\<rparr>)"

text \<open>\<^verbatim>\<open>prefix ? `${prefix}.${key}` : key\<close>.\<close>

definition full_key :: "string \<Rightarrow> string \<Rightarrow> string" where
  "full_key prefix key = (if prefix \<noteq> [] then prefix @ ''.'' @ key else key)"

fun tree_size :: "jsval \<Rightarrow> nat" where
  "tree_size (JArray xs) = Suc (sum_list (map (\<lambda>v. Suc (tree_size v)) xs))"
| "tree_size (JObject kvs) = Suc (sum_list (map (\<lambda>(k, v). Suc (tree_size v)) kvs))"
| "tree_size _ = 1"

definition entries_size :: "(string \<times> jsval) list \<Rightarrow> nat" where
  "entries_size es = sum_list (map (\<lambda>(k, v). Suc (tree_size v)) es)"

fun array_items :: "jsval \<Rightarrow> jsval list" where
  "array_items (JArray xs) = xs"
| "array_items _ = []"

text \<open>
  \<^verbatim>\<open>analyzeObject\<close>: \<open>analyzeEntries\<close> is the body of
  \<^verbatim>\<open>Object.keys(obj).forEach\<close>, \<open>analyzeItems\<close> that of \<^verbatim>\<open>value.forEach\<close> over
  the elements of an array. The values \<^verbatim>\<open>analyzeObject\<close> is called on are
  documents, nested objects, and array elements whose \<^verbatim>\<open>typeof\<close> is \<^verbatim>\<open>object\<close>:
  an array has its indices as keys, a date has no own enumerable property,
  and what an ObjectId has is left to the runtime. An error of
  \<^verbatim>\<open>getValueType\<close> ends the walk.
\<close>

function analyzeObject :: "runtime \<Rightarrow> jsval \<Rightarrow> tables \<Rightarrow> string \<Rightarrow> error + tables"
  and analyzeEntries ::
    "runtime \<Rightarrow> (string \<times> jsval) list \<Rightarrow> tables \<Rightarrow> string \<Rightarrow> error + tables"
  and analyzeItems :: "runtime \<Rightarrow> jsval list \<Rightarrow> tables \<Rightarrow> string \<Rightarrow> error + tables"
where
  "analyzeObject h obj s prefix =
     (case obj of
        JObject kvs \<Rightarrow> analyzeEntries h kvs s prefix
      | JArray xs \<Rightarrow> analyzeEntries h (zip (map show_nat [0..<length xs]) xs) s prefix
      | JObjectId x \<Rightarrow>
          Inr (foldl (\<lambda>s1 (path, t). record_type (full_key prefix path) t s1) s
                 (ObjectId_walk h x))
      | _ \<Rightarrow> Inr s)"
| "analyzeEntries h [] s prefix = Inr s"
| "analyzeEntries h ((key, v) # rest) s prefix =
     (let fullKey = full_key prefix key in
      case getValueType_export v of
        Inl e \<Rightarrow> Inl e
      | Inr t \<Rightarrow>
          (let s1 = record_type fullKey t s in
           case (if t = ''object'' \<and> v \<noteq> JNull then analyzeObject h v s1 fullKey
                 else if t = ''array'' \<and> 0 < length (array_items v)
                   then analyzeItems h (array_items v) s1 (fullKey @ ''[]'')
                 else Inr s1) of
             Inl e \<Rightarrow> Inl e
           | Inr s2 \<Rightarrow> analyzeEntries h rest s2 prefix))"
| "analyzeItems h [] s prefix = Inr s"
| "analyzeItems h (item # items) s prefix =
     (case (if typeof_export item = ''object'' \<and> item \<noteq> JNull
            then analyzeObject h item s prefix
            else Inr s) of
        Inl e \<Rightarrow> Inl e
      | Inr s1 \<Rightarrow> analyzeItems h items s1 prefix)"
  by pat_completeness auto

termination
proof (relation "measure (\<lambda>x. case x of
          Inl (h, obj, s, prefix) \<Rightarrow> 2 * tree_size obj
        | Inr (Inl (h, es, s, prefix)) \<Rightarrow> 2 * entries_size es + 1
        | Inr (Inr (h, items, s, prefix)) \<Rightarrow> 2 * entries_size (map (Pair []) items) + 1)",
    goal_cases)
  case (2 h obj s prefix xs)
  have "entries_size (zip ks ys) \<le> entries_size (map (Pair []) ys)"
    for ks :: "string list" and ys
    by (induction ks ys rule: list_induct2') (simp_all add: entries_size_def)
  moreover have "entries_size (map (Pair []) ys) = sum_list (map (\<lambda>v. Suc (tree_size v)) ys)"
    for ys
    by (induction ys) (simp_all add: entries_size_def)
  ultimately show ?case
    using 2 by (simp add: le_imp_less_Suc)
next
  case (5 h key v rest s prefix x xa xb)
  then show ?case
    by (cases v) (simp_all add: entries_size_def comp_def)
qed (simp_all add: entries_size_def)

text \<open>
  A sampled document is an object, given by its entries. \<open>analyzeDocuments\<close>
  is the first loop of \<^verbatim>\<open>analyzeFieldTypes\<close>.
\<close>

type_synonym document = "(string \<times> jsval) list"

fun analyzeDocuments :: "runtime \<Rightarrow> document list \<Rightarrow> tables \<Rightarrow> error + tables" where
  "analyzeDocuments h [] s = Inr s"
| "analyzeDocuments h (doc # documents) s =
     (case analyzeObject h (JObject doc) s [] of
        Inl e \<Rightarrow> Inl e
      | Inr s1 \<Rightarrow> analyzeDocuments h documents s1)"

text \<open>
  The second loop replaces every table by \<^verbatim>\<open>{type, nullable, samples}\<close>.
  \<^verbatim>\<open>types[a] > types[b]\<close> compares two property reads; a read of an absent
  property is undefined, and a comparison with undefined is false.
\<close>

record fieldInfo =
  info_type :: string
  nullable :: bool
  samples :: nat

definition count_gt :: "nat option \<Rightarrow> nat option \<Rightarrow> bool" where
  "count_gt a b = (case (a, b) of (Some x, Some y) \<Rightarrow> y < x | _ \<Rightarrow> False)"

text \<open>
  \<^verbatim>\<open>Object.keys(types).reduce((a, b) => types[a] > types[b] ? a : b)\<close>; without
  an initial value \<^verbatim>\<open>reduce\<close> throws on the empty array.
\<close>

definition mostCommon :: "type_counts \<Rightarrow> type_counts \<Rightarrow> error + string" where
  "mostCommon inherited types =
     (case map fst types of
        [] \<Rightarrow> Inl (TypeError ''Reduce of empty array with no initial value'')
      | k # ks \<Rightarrow>
          Inr (foldl (\<lambda>a b. if count_gt (read_count inherited types a) (read_count inherited types b)
                             then a else b) k ks))"

text \<open>\<^verbatim>\<open>Math.max(...Object.values(types))\<close>, on the non-empty tables that reach it.\<close>

definition max_count :: "type_counts \<Rightarrow> nat" where
  "max_count types = foldl max 0 (map snd types)"

text \<open>
  \<^verbatim>\<open>types['null'] > 0\<close> too reads through the prototype chain when the table
  has no own count of null.
\<close>

definition summarize :: "type_counts \<Rightarrow> type_counts \<Rightarrow> error + fieldInfo" where
  "summarize inherited types =
     (case mostCommon inherited types of
        Inl e \<Rightarrow> Inl e
      | Inr t \<Rightarrow>
          Inr \<lparr>info_type = t,
               nullable = count_gt (read_count inherited types ''null'') (Some 0),
               samples = max_count types\<rparr>)"

fun summarize_all :: "type_counts \<Rightarrow> field_counts \<Rightarrow> error + (string \<times> fieldInfo) list" where
  "summarize_all inherited [] = Inr []"
| "summarize_all inherited ((field, types) # rest) =
     (case summarize inherited types of
        Inl e \<Rightarrow> Inl e
      | Inr info \<Rightarrow>
          (case summarize_all inherited rest of
             Inl e \<Rightarrow> Inl e
           | Inr infos \<Rightarrow> Inr ((field, info) # infos)))"

text \<open>\<^verbatim>\<open>analyzeFieldTypes\<close>, called when \<^verbatim>\<open>Object.prototype\<close> holds no count.\<close>

definition analyzeFieldTypes :: "runtime \<Rightarrow> document list \<Rightarrow> error + (string \<times> fieldInfo) list" where
  "analyzeFieldTypes h documents =
     (case analyzeDocuments h documents \<lparr>schema_object = [], prototype_counts = []\<rparr> of
        Inl e \<Rightarrow> Inl e
      | Inr s \<Rightarrow> summarize_all (prototype_counts s) (schema_object s))"

section \<open>Exporter: the relational projection\<close>

text \<open>\<^verbatim>\<open>Array.prototype.join\<close> on strings.\<close>

fun join :: "string \<Rightarrow> string list \<Rightarrow> string" where
  "join sep [] = []"
| "join sep [x] = x"
| "join sep (x # y # ys) = x @ sep @ join sep (y # ys)"

text \<open>
  The column name of a field path:
  \<^verbatim>\<open>field.replace(/\[\]/g, '_array').replace(/\./g, '_')\<close>.
\<close>

fun replace_brackets :: "string \<Rightarrow> string" where
  "replace_brackets (c # d # rest) =
     (if c = CHR ''['' \<and> d = CHR '']'' then ''_array'' @ replace_brackets rest
      else c # replace_brackets (d # rest))"
| "replace_brackets s = s"

definition clean_name :: "string \<Rightarrow> string" where
  "clean_name field = map (\<lambda>c. if c = CHR ''.'' then CHR ''_'' else c) (replace_brackets field)"

definition backquoted :: "string \<Rightarrow> string" where
  "backquoted s = [CHR 0x60] @ s @ [CHR 0x60]"

definition quoted :: "string \<Rightarrow> string" where
  "quoted s = [CHR 0x27] @ s @ [CHR 0x27]"

text \<open>
  \<^verbatim>\<open>typeMap[mongoType] || 'TEXT'\<close>. The table is an object literal, so the
  names of the members of \<^verbatim>\<open>Object.prototype\<close> read as those members, which
  are no strings.
\<close>

definition mongoTypeToSQL :: "string \<Rightarrow> error + string" where
  "mongoTypeToSQL mongoType =
     (case map_of
        [(''string'', ''TEXT''), (''number'', ''DECIMAL(10,2)''), (''boolean'', ''BOOLEAN''),
         (''date'', ''DATETIME''), (''objectId'', ''VARCHAR(24)''), (''array'', ''JSON''),
         (''object'', ''JSON''), (''null'', ''TEXT'')] mongoType of
        Some sqlType \<Rightarrow> Inr sqlType
      | None \<Rightarrow>
          if mongoType = ''__proto__'' \<or> mongoType \<in> set prototype_functions
          then Inl (Unmodelled ''a member of Object.prototype as SQL type'')
          else Inr ''TEXT'')"

text \<open>The array \<^verbatim>\<open>fields\<close> of \<^verbatim>\<open>generateCreateTableSQL\<close>, before the \<^verbatim>\<open>_id\<close> column is put in front.\<close>

fun create_fields :: "(string \<times> fieldInfo) list \<Rightarrow> error + string list" where
  "create_fields [] = Inr []"
| "create_fields ((field, info) # schema) =
     (case mongoTypeToSQL (info_type info) of
        Inl e \<Rightarrow> Inl e
      | Inr sqlType \<Rightarrow>
          (case create_fields schema of
             Inl e \<Rightarrow> Inl e
           | Inr columns \<Rightarrow>
               Inr ((''  '' @ backquoted (clean_name field) @ '' '' @ sqlType
                     @ (if nullable info then [] else '' NOT NULL'')) # columns)))"

definition generateCreateTableSQL :: "string \<Rightarrow> (string \<times> fieldInfo) list \<Rightarrow> error + string" where
  "generateCreateTableSQL collectionName schema =
     (case create_fields schema of
        Inl e \<Rightarrow> Inl e
      | Inr columns \<Rightarrow>
          Inr (''-- Schema for collection: '' @ collectionName @ [CHR 0x0A]
               @ ''CREATE TABLE IF NOT EXISTS '' @ backquoted collectionName @ '' ('' @ [CHR 0x0A]
               @ join ('','' @ [CHR 0x0A])
                   ((if map_of schema ''_id'' = None
                     then [''  '' @ backquoted ''_id'' @ '' VARCHAR(24) PRIMARY KEY''] else [])
                    @ columns)
               @ [CHR 0x0A] @ '');'' @ [CHR 0x0A, CHR 0x0A]))"

text \<open>
  \<^verbatim>\<open>flattenObject\<close>. What it stores for one property: null for null and
  undefined, the JSON text for an array and for an object that is neither an
  ObjectId nor a date, the value itself otherwise. The test
  \<^verbatim>\<open>value.constructor.name !== 'ObjectId'\<close> reads the name without testing the
  constructor, as \<^verbatim>\<open>getValueType\<close> does.
\<close>

definition flat_value :: "runtime \<Rightarrow> jsval \<Rightarrow> error + jsval" where
  "flat_value h v =
     (if v = JNull \<or> v = JUndefined then Inr JNull
      else if isArray_export v then Inr (JString (JSON_stringify h v))
      else if typeof_export v = ''object'' then
        (case constructor_name_export v of
           Inl e \<Rightarrow> Inl e
         | Inr n \<Rightarrow>
             if n \<noteq> JString ''ObjectId'' \<and> \<not> instanceofDate_export v
             then Inr (JString (JSON_stringify h v))
             else Inr v)
      else Inr v)"

text \<open>
  \<^verbatim>\<open>flattened[newKey] = x\<close>. Under the name \<^verbatim>\<open>__proto__\<close> the assignment
  reaches the setter that \<^verbatim>\<open>flattened\<close> inherits: no property is made; the
  setter replaces the prototype of \<^verbatim>\<open>flattened\<close> by \<open>x\<close> when \<open>x\<close> is null or an
  object. Later assignments still make own properties, unless the new
  prototype brings setters of its own, as an ObjectId may.
\<close>

definition assign_flattened :: "string \<Rightarrow> jsval \<Rightarrow> document \<Rightarrow> error + document" where
  "assign_flattened newKey x flattened =
     (if newKey = ''__proto__'' then
        (case x of
           JObjectId i \<Rightarrow> Inl (Unmodelled ''an ObjectId as the prototype of the row'')
         | _ \<Rightarrow> Inr flattened)
      else Inr (set_entry newKey x flattened))"

text \<open>The body of \<^verbatim>\<open>Object.keys(obj).forEach\<close> in \<^verbatim>\<open>flattenObject\<close>, from the key on.\<close>

fun flattenEntries ::
  "runtime \<Rightarrow> (string \<times> jsval) list \<Rightarrow> string \<Rightarrow> document \<Rightarrow> error + document"
where
  "flattenEntries h [] prefix flattened = Inr flattened"
| "flattenEntries h ((key, v) # rest) prefix flattened =
     (case flat_value h v of
        Inl e \<Rightarrow> Inl e
      | Inr x \<Rightarrow>
          (case assign_flattened (full_key prefix key) x flattened of
             Inl e \<Rightarrow> Inl e
           | Inr flattened1 \<Rightarrow> flattenEntries h rest prefix flattened1))"

definition flattenObject :: "runtime \<Rightarrow> document \<Rightarrow> string \<Rightarrow> error + document" where
  "flattenObject h obj prefix = flattenEntries h obj prefix []"

text \<open>\<^verbatim>\<open>s.replace('T', ' ')\<close>: the first occurrence only.\<close>

fun replace_first_T :: "string \<Rightarrow> string" where
  "replace_first_T [] = []"
| "replace_first_T (c # s) = (if c = CHR ''T'' then CHR '' '' # s else c # replace_first_T s)"

text \<open>
  \<^verbatim>\<open>formatValueForSQL\<close>, followed by the conversion to text that \<^verbatim>\<open>join\<close>
  applies to a number. An array or object that the function returns as it is
  would be converted by \<^verbatim>\<open>join\<close> too; that conversion is not modelled.
  \<^verbatim>\<open>flattenObject\<close> hands over an object only where it passes for an ObjectId.
\<close>

fun formatValueForSQL :: "runtime \<Rightarrow> jsval \<Rightarrow> error + string" where
  "formatValueForSQL h JNull = Inr ''NULL''"
| "formatValueForSQL h JUndefined = Inr ''NULL''"
| "formatValueForSQL h (JString s) =
     Inr (quoted (concat (map (\<lambda>c. if c = CHR 0x27 then [CHR 0x27, CHR 0x27] else [c]) s)))"
| "formatValueForSQL h (JBool b) = Inr (if b then ''1'' else ''0'')"
| "formatValueForSQL h (JDate d) =
     (case d of
        None \<Rightarrow> Inl (RangeError ''Invalid time value'')
      | Some t \<Rightarrow> Inr (quoted (replace_first_T (take 19 (Date_toISOString h t)))))"
| "formatValueForSQL h (JObjectId x) = Inr (quoted x)"
| "formatValueForSQL h (JNumber n) = Inr (String_number h n)"
| "formatValueForSQL h (JArray xs) = Inl (Unmodelled ''an array as a flattened value'')"
| "formatValueForSQL h (JObject kvs) =
     (case constructor_name_export (JObject kvs) of
        Inl e \<Rightarrow> Inl e
      | Inr n \<Rightarrow>
          if n = JString ''ObjectId'' then
            (case map_of kvs ''toString'' of
               None \<Rightarrow> Inr (quoted ''[object Object]'')
             | Some f \<Rightarrow> Inl (TypeError ''value.toString is not a function''))
          else Inl (Unmodelled ''an object as a flattened value''))"

text \<open>The arrays \<^verbatim>\<open>fields\<close> and \<^verbatim>\<open>values\<close> of one document in \<^verbatim>\<open>generateInsertSQL\<close>.\<close>

definition insert_fields :: "document \<Rightarrow> string list" where
  "insert_fields flatDoc = map (\<lambda>(key, v). backquoted (clean_name key)) flatDoc"

fun format_all :: "runtime \<Rightarrow> jsval list \<Rightarrow> error + string list" where
  "format_all h [] = Inr []"
| "format_all h (v # vs) =
     (case formatValueForSQL h v of
        Inl e \<Rightarrow> Inl e
      | Inr s \<Rightarrow> (case format_all h vs of Inl e \<Rightarrow> Inl e | Inr ss \<Rightarrow> Inr (s # ss)))"

definition insert_statement :: "runtime \<Rightarrow> string \<Rightarrow> document \<Rightarrow> error + string" where
  "insert_statement h collectionName doc =
     (case flattenObject h doc [] of
        Inl e \<Rightarrow> Inl e
      | Inr flatDoc \<Rightarrow>
          (case format_all h (map snd flatDoc) of
             Inl e \<Rightarrow> Inl e
           | Inr vals \<Rightarrow>
               Inr (''INSERT INTO '' @ backquoted collectionName @ '' (''
                    @ join '', '' (insert_fields flatDoc) @ '') VALUES ('' @ join '', '' vals
                    @ '');'' @ [CHR 0x0A])))"

fun insert_statements :: "runtime \<Rightarrow> string \<Rightarrow> document list \<Rightarrow> error + string" where
  "insert_statements h collectionName [] = Inr []"
| "insert_statements h collectionName (doc # docs) =
     (case insert_statement h collectionName doc of
        Inl e \<Rightarrow> Inl e
      | Inr s \<Rightarrow>
          (case insert_statements h collectionName docs of
             Inl e \<Rightarrow> Inl e
           | Inr rest \<Rightarrow> Inr (s @ rest)))"

text \<open>\<^verbatim>\<open>generateInsertSQL\<close>; the code does not read its parameter \<^verbatim>\<open>schema\<close>.\<close>

definition generateInsertSQL ::
  "runtime \<Rightarrow> string \<Rightarrow> document list \<Rightarrow> (string \<times> fieldInfo) list \<Rightarrow> error + string"
where
  "generateInsertSQL h collectionName documents schema =
     (case insert_statements h collectionName documents of
        Inl e \<Rightarrow> Inl e
      | Inr body \<Rightarrow>
          Inr (''-- Data for collection: '' @ collectionName @ [CHR 0x0A] @ body @ [CHR 0x0A]))"

text \<open>The document \<^verbatim>\<open>{"tags": [{"name": "a"}, {"name": "b"}]}\<close> and its inferred schema.\<close>

definition tags_doc :: document where
  "tags_doc =
     [(''tags'', JArray [JObject [(''name'', JString ''a'')], JObject [(''name'', JString ''b'')]])]"

definition tags_schema :: "(string \<times> fieldInfo) list" where
  "tags_schema =
     [(''tags'', \<lparr>info_type = ''array'', nullable = False, samples = 1\<rparr>),
      (''tags[].name'', \<lparr>info_type = ''string'', nullable = False, samples = 2\<rparr>)]"

text \<open>The JSON text \<^verbatim>\<open>[{"name":"a"},{"name":"b"}]\<close>.\<close>

definition tags_json :: string where
  "tags_json =
     ''[{'' @ [CHR 0x22] @ ''name'' @ [CHR 0x22] @ '':'' @ [CHR 0x22] @ ''a'' @ [CHR 0x22]
     @ ''},{'' @ [CHR 0x22] @ ''name'' @ [CHR 0x22] @ '':'' @ [CHR 0x22] @ ''b'' @ [CHR 0x22]
     @ ''}]''"

section \<open>Importer: inserting in batches\<close>

text \<open>
  The last part of \<^verbatim>\<open>importCollectionData\<close>, from \<^verbatim>\<open>// Import in batches\<close> on.
  The collection belongs to the driver: \<^verbatim>\<open>insertMany\<close> and \<^verbatim>\<open>insertOne\<close> act on
  a store of some type and either resolve (\<open>True\<close>) or reject. The calls made
  are recorded in order.
\<close>

record ('s, 'd) collection =
  insertMany :: "'s \<Rightarrow> 'd list \<Rightarrow> bool \<times> 's"
  insertOne :: "'s \<Rightarrow> 'd \<Rightarrow> bool \<times> 's"

datatype 'd store_call = InsertMany "'d list" | InsertOne 'd

record ('s, 'd) import_state =
  importedCount :: nat
  store :: 's
  calls :: "'d store_call list"

text \<open>The loop \<^verbatim>\<open>for (const doc of batch)\<close> of the \<^verbatim>\<open>catch\<close> block.\<close>

fun insert_each ::
  "('s, 'd) collection \<Rightarrow> 'd list \<Rightarrow> ('s, 'd) import_state \<Rightarrow> ('s, 'd) import_state"
where
  "insert_each c [] st = st"
| "insert_each c (doc # docs) st =
     (case insertOne c (store st) doc of
        (resolved, s) \<Rightarrow>
          insert_each c docs
            (st\<lparr>importedCount := (if resolved then importedCount st + 1 else importedCount st),
                store := s, calls := calls st @ [InsertOne doc]\<rparr>))"

text \<open>The body of the batch loop: one bulk insert, and the fallback when it rejects.\<close>

definition submit_batch ::
  "('s, 'd) collection \<Rightarrow> 'd list \<Rightarrow> ('s, 'd) import_state \<Rightarrow> ('s, 'd) import_state"
where
  "submit_batch c batch st =
     (case insertMany c (store st) batch of
        (resolved, s) \<Rightarrow>
          if resolved
          then st\<lparr>importedCount := importedCount st + length batch,
                  store := s, calls := calls st @ [InsertMany batch]\<rparr>
          else insert_each c batch (st\<lparr>store := s, calls := calls st @ [InsertMany batch]\<rparr>))"

text \<open>
  \<^verbatim>\<open>for (let i = 0; i < validDocuments.length; i += batchSize)\<close> with
  \<^verbatim>\<open>batch = validDocuments.slice(i, i + batchSize)\<close>. With batch size 0 the loop
  does not end: the result is \<open>None\<close>.
\<close>

partial_function (option) import_loop ::
  "('s, 'd) collection \<Rightarrow> nat \<Rightarrow> 'd list \<Rightarrow> nat \<Rightarrow> ('s, 'd) import_state
     \<Rightarrow> ('s, 'd) import_state option"
where
  "import_loop c batch_size validDocuments i st =
     (if i < length validDocuments
      then import_loop c batch_size validDocuments (i + batch_size)
             (submit_batch c (take batch_size (drop i validDocuments)) st)
      else Some st)"

text \<open>
  A collection that rejects every bulk insert holding the document 0, and
  the single insert of that document; 2500 documents with one 0, in the
  second thousand.
\<close>

definition poisoned :: "(unit, nat) collection" where
  "poisoned =
     \<lparr>insertMany = (\<lambda>s batch. (0 \<notin> set batch, s)),
      insertOne = (\<lambda>s doc. (doc \<noteq> 0, s))\<rparr>"

definition example_documents :: "nat list" where
  "example_documents = replicate 1000 1 @ 0 # replicate 999 2 @ replicate 500 3"

section \<open>Store invariants\<close>

text \<open>
  The vocabulary for the frame property of the validator. A value is fresh
  above \<open>n\<close> when it is no reference to a cell below \<open>n\<close>; a store is
  \<open>ok\<close> when its cells from \<open>n\<close> on hold fresh values only; \<open>ext n H H'\<close>
  says that \<open>H'\<close> is such a store and agrees with \<open>H\<close> below \<open>n\<close>.
\<close>

fun cell_vals :: "cell \<Rightarrow> val list" where
  "cell_vals (Obj kvs) = map snd kvs"
| "cell_vals (Arr xs) = xs"

definition fresh :: "nat \<Rightarrow> val \<Rightarrow> bool" where
  "fresh n v \<longleftrightarrow> (case v of VRef a \<Rightarrow> n \<le> a | _ \<Rightarrow> True)"

definition fresh_cell :: "nat \<Rightarrow> cell \<Rightarrow> bool" where
  "fresh_cell n c \<longleftrightarrow> list_all (fresh n) (cell_vals c)"

definition ok :: "nat \<Rightarrow> heap \<Rightarrow> bool" where
  "ok n H \<longleftrightarrow> n \<le> length H \<and> list_all (fresh_cell n) (drop n H)"

definition ext :: "nat \<Rightarrow> heap \<Rightarrow> heap \<Rightarrow> bool" where
  "ext n H H' \<longleftrightarrow> ok n H' \<and> take n H' = take n H"

section \<open>The example document\<close>

text \<open>
  The document \<^verbatim>\<open>{"age": "34", "active": "yes"}\<close> at address 0 and the schema
  \<^verbatim>\<open>{age: number, active: boolean}\<close>.
\<close>

definition example_heap :: heap where
  "example_heap = [Obj [(''age'', VString ''34''), (''active'', VString ''yes'')]]"

definition example_schema :: collectionSchema where
  "example_schema =
     \<lparr>schema_name = ''people'',
      schema_fields = [(''age'', FieldSchema ''number'' False None None None),
                       (''active'', FieldSchema ''boolean'' False None None None)]\<rparr>"

section \<open>The errors of a report\<close>

text \<open>The messages that \<^verbatim>\<open>errors.push\<close> can add.\<close>

definition is_required_message :: "string \<Rightarrow> bool" where
  "is_required_message e \<longleftrightarrow> (\<exists>fieldPath. e = required_message fieldPath)"

definition errors_grow :: "vstate \<Rightarrow> vstate \<Rightarrow> bool" where
  "errors_grow st st' \<longleftrightarrow>
     (\<exists>es. errors st' = errors st @ es \<and> list_all is_required_message es)"

text \<open>
  A document \<^verbatim>\<open>{"age": 34}\<close> and a schema that wants \<^verbatim>\<open>age\<close> as a string
  and requires \<^verbatim>\<open>email\<close>.
\<close>

definition missing_heap :: heap where
  "missing_heap = [Obj [(''age'', VNumber (Fin 34))]]"

definition missing_schema :: collectionSchema where
  "missing_schema =
     \<lparr>schema_name = ''people'',
      schema_fields = [(''age'', FieldSchema ''string'' False None None None),
                       (''email'', FieldSchema ''string'' True (Some 0) None None)]\<rparr>"



text \<open>
  What a cast that throws leaves behind in \<^verbatim>\<open>validateField\<close>: the warning of
  the type check that follows it. The cast counter moves only for the value
  NaN, which \<^verbatim>\<open>finalValue !== value\<close> finds different from itself.
\<close>

definition after_failed_cast ::
  "import_options \<Rightarrow> val \<Rightarrow> fieldSchema \<Rightarrow> string \<Rightarrow> vstate \<Rightarrow> vstate"
where
  "after_failed_cast opts v fs fieldPath st =
     st\<lparr>warnings := warnings st
           @ [mismatch_message opts fieldPath (getValueType (heap st) v) (fs_type fs)],
        typeCastingCount := typeCastingCount st + (if v = VNumber NaN then 1 else 0)\<rparr>"




section \<open>Properties of the order of properties\<close>

lemma update_entry_keys: "map fst (update_entry k x kvs) = map fst kvs"
  by (induction k x kvs rule: update_entry.induct) auto

lemma update_entry_values:
  "set (map snd (update_entry k x kvs)) \<subseteq> insert x (set (map snd kvs))"
  by (induction k x kvs rule: update_entry.induct) auto

lemma insert_index_set: "set (insert_index i k x kvs) = insert (k, x) (set kvs)"
  by (induction i k x kvs rule: insert_index.induct) (auto split: option.splits)

lemma create_entry_set: "set (create_entry k x kvs) = insert (k, x) (set kvs)"
  by (simp add: create_entry_def insert_index_set split: option.splits)

lemma set_entry_values:
  "set (map snd (set_entry k x kvs)) \<subseteq> insert x (set (map snd kvs))"
  using update_entry_values [of k x kvs]
  by (auto simp: set_entry_def create_entry_set)



lemma map_of_None_keys: "map_of kvs k = None \<longleftrightarrow> k \<notin> fst ` set kvs"
  by (simp add: map_of_eq_None_iff)

lemma update_entry_key_set: "fst ` set (update_entry k x kvs) = fst ` set kvs"
  using update_entry_keys [of k x kvs, THEN arg_cong, of set] by simp

lemma insert_index_keys_set:
  "set (map fst (insert_index i k x kvs)) = insert k (set (map fst kvs))"
  by (simp add: insert_index_set)

lemma insert_index_distinct:
  "k \<notin> fst ` set kvs \<Longrightarrow> distinct (map fst kvs)
     \<Longrightarrow> distinct (map fst (insert_index i k x kvs))"
  by (induction i k x kvs rule: insert_index.induct)
     (auto simp: insert_index_set split: option.splits)

lemma set_entry_keys_set: "fst ` set (set_entry k x kvs) = insert k (fst ` set kvs)"
proof (cases "map_of kvs k = None")
  case True
  then show ?thesis by (simp add: set_entry_def create_entry_set)
next
  case False
  then have "k \<in> fst ` set kvs" by (simp add: map_of_None_keys)
  with False show ?thesis by (auto simp: set_entry_def update_entry_key_set)
qed

lemma set_entry_distinct:
  assumes "distinct (map fst kvs)"
  shows "distinct (map fst (set_entry k x kvs))"
proof (cases "map_of kvs k = None")
  case True
  then have "k \<notin> fst ` set kvs" by (simp add: map_of_None_keys)
  with True assms show ?thesis
    by (simp add: set_entry_def create_entry_def insert_index_distinct split: option.splits)
next
  case False
  with assms show ?thesis by (simp only: set_entry_def update_entry_keys if_False)
qed

lemma set_entry_nonempty: "set_entry k x kvs \<noteq> []"
  using set_entry_keys_set [of k x kvs] by auto

text \<open>Reading after writing.\<close>

lemma map_of_update_entry:
  "map_of kvs k \<noteq> None \<Longrightarrow> map_of (update_entry k x kvs) = (map_of kvs)(k \<mapsto> x)"
  by (induction k x kvs rule: update_entry.induct) (auto simp: fun_upd_twist)

lemma map_of_insert_index:
  "k \<notin> fst ` set kvs \<Longrightarrow> map_of (insert_index i k x kvs) = (map_of kvs)(k \<mapsto> x)"
  by (induction i k x kvs rule: insert_index.induct)
     (auto simp: fun_upd_twist split: option.splits)

lemma map_of_set_entry: "map_of (set_entry k x kvs) = (map_of kvs)(k \<mapsto> x)"
proof (cases "map_of kvs k")
  case None
  then have k: "k \<notin> fst ` set kvs" by (simp add: map_of_None_keys)
  have "map_of (kvs @ [(k, x)]) = (map_of kvs)(k \<mapsto> x)"
    using None by (auto simp: map_add_def fun_eq_iff split: option.splits)
  with None k show ?thesis
    by (simp add: set_entry_def create_entry_def map_of_insert_index split: option.splits)
next
  case (Some y)
  then show ?thesis by (simp add: set_entry_def map_of_update_entry)
qed

text \<open>Where a property goes depends on the names only.\<close>

lemma insert_index_keys:
  "map fst kvs = map fst kvs'
     \<Longrightarrow> map fst (insert_index i k x kvs) = map fst (insert_index i k y kvs')"
proof (induction i k x kvs arbitrary: kvs' rule: insert_index.induct)
  case (1 i k x)
  then show ?case by simp
next
  case (2 i k x k' z kvs)
  from "2.prems" obtain z' rest where kvs': "kvs' = (k', z') # rest" "map fst kvs = map fst rest"
    by (cases kvs') auto
  show ?case
  proof (cases "array_index k'")
    case None
    then show ?thesis using kvs' by simp
  next
    case (Some j)
    then show ?thesis using kvs' "2.IH" [OF Some _ kvs'(2)] by simp
  qed
qed

lemma set_entry_keys:
  assumes "map fst kvs = map fst kvs'"
  shows "map fst (set_entry k x kvs) = map fst (set_entry k y kvs')"
proof -
  have "fst ` set kvs = fst ` set kvs'"
    using assms [THEN arg_cong, of set] by simp
  then have n: "map_of kvs k = None \<longleftrightarrow> map_of kvs' k = None"
    by (simp add: map_of_None_keys)
  show ?thesis
  proof (cases "map_of kvs k = None")
    case True
    with n have "map_of kvs' k = None" by simp
    with True assms insert_index_keys [OF assms] show ?thesis
      by (simp add: set_entry_def create_entry_def split: option.splits)
  next
    case False
    with n have "map_of kvs' k \<noteq> None" by simp
    with False assms show ?thesis by (simp only: set_entry_def update_entry_keys if_False)
  qed
qed

lemma fold_set_entry_keys:
  "map fst acc = map fst acc'
     \<Longrightarrow> map fst (foldl (\<lambda>kvs (k, x). set_entry k x kvs) acc kxs)
         = map fst (foldl (\<lambda>kvs k. set_entry k () kvs) acc' (map fst kxs))"
proof (induction kxs arbitrary: acc acc')
  case Nil
  then show ?case by simp
next
  case (Cons kx kxs)
  obtain k x where kx: "kx = (k, x)" by (cases kx)
  have "map fst (set_entry k x acc) = map fst (set_entry k () acc')"
    using Cons.prems by (rule set_entry_keys)
  from Cons.IH [OF this] show ?case by (simp add: kx)
qed

lemma fold_set_entry_distinct:
  "distinct (map fst acc) \<Longrightarrow> distinct (map fst (foldl (\<lambda>kvs (k, x). set_entry k x kvs) acc kxs))"
  by (induction kxs arbitrary: acc) (auto simp: set_entry_distinct)

lemma fold_set_entry_map_of:
  "distinct (map fst kxs) \<Longrightarrow> set (map fst acc) \<inter> set (map fst kxs) = {}
     \<Longrightarrow> map_of (foldl (\<lambda>kvs (k, x). set_entry k x kvs) acc kxs) = map_of acc ++ map_of kxs"
proof (induction kxs arbitrary: acc)
  case Nil
  then show ?case by simp
next
  case (Cons kx kxs)
  obtain k x where kx: "kx = (k, x)" by (cases kx)
  have d: "distinct (map fst kxs)" and k: "k \<notin> fst ` set kxs" "k \<notin> fst ` set acc"
    using Cons.prems kx by auto
  have "fst ` set (set_entry k x acc) \<inter> fst ` set kxs = {}"
    using Cons.prems(2) k kx by (simp add: set_entry_keys_set)
  then have "set (map fst (set_entry k x acc)) \<inter> set (map fst kxs) = {}" by simp
  from Cons.IH [OF d this]
  have "map_of (foldl (\<lambda>kvs (k, x). set_entry k x kvs) (set_entry k x acc) kxs)
      = (map_of acc)(k \<mapsto> x) ++ map_of kxs"
    unfolding map_of_set_entry .
  also have "\<dots> = map_of acc ++ map_of ((k, x) # kxs)"
  proof -
    have "map_of kxs k = None" using k(1) by (simp add: map_of_None_keys)
    then show ?thesis by (auto simp: map_add_def fun_eq_iff split: option.splits)
  qed
  finally have "map_of (foldl (\<lambda>kvs (k, x). set_entry k x kvs) (set_entry k x acc) kxs)
      = map_of acc ++ map_of ((k, x) # kxs)" .
  moreover have "foldl (\<lambda>kvs (k, x). set_entry k x kvs) acc (kx # kxs)
      = foldl (\<lambda>kvs (k, x). set_entry k x kvs) (set_entry k x acc) kxs"
    by (simp add: kx)
  ultimately show ?case by (simp only: kx)
qed

lemma same_keys_same_map:
  "map fst xs = map fst ys \<Longrightarrow> distinct (map fst xs) \<Longrightarrow> map_of xs = map_of ys \<Longrightarrow> xs = ys"
proof (induction xs arbitrary: ys)
  case Nil
  then show ?case by simp
next
  case (Cons kx xs)
  obtain k x where kx: "kx = (k, x)" by (cases kx)
  from Cons.prems(1) kx obtain y ys' where ys: "ys = (k, y) # ys'" "map fst xs = map fst ys'"
    by (cases ys) auto
  from Cons.prems(3) kx ys have xy: "x = y"
    by (metis fun_upd_same map_of.simps(2) option.inject prod.sel(1) prod.sel(2))
  have "k \<notin> set (map fst xs)" using Cons.prems(2) kx by simp
  then have "k \<notin> set (map fst ys')" using ys(2) by simp
  with \<open>k \<notin> set (map fst xs)\<close> have k: "map_of xs k = None" "map_of ys' k = None"
    by (simp_all add: map_of_None_keys)
  have "map_of xs = map_of ys'"
  proof
    fix a
    show "map_of xs a = map_of ys' a"
    proof (cases "a = k")
      case True
      with k show ?thesis by simp
    next
      case False
      with Cons.prems(3) kx ys(1) show ?thesis by (auto simp: fun_eq_iff split: if_splits)
    qed
  qed
  with Cons.IH [OF ys(2)] Cons.prems(2) kx have "xs = ys'" by simp
  with xy kx ys show ?case by simp
qed

text \<open>
  Writing the properties of an object one after the other into an empty
  object gives the same properties in the same order.
\<close>

lemma enumeration_order_distinct: "enumeration_order ks \<Longrightarrow> distinct ks"
proof -
  assume e: "enumeration_order ks"
  have "distinct (map fst (foldl (\<lambda>kvs (k, x). set_entry k x kvs) [] (map (\<lambda>k. (k, ())) ks)))"
    by (rule fold_set_entry_distinct) simp
  moreover have "map fst (foldl (\<lambda>kvs (k, x). set_entry k x kvs) [] (map (\<lambda>k. (k, ())) ks))
      = map fst (foldl (\<lambda>kvs k. set_entry k () kvs) [] (map fst (map (\<lambda>k. (k, ())) ks)))"
    by (rule fold_set_entry_keys) simp
  ultimately show ?thesis using e by (simp add: enumeration_order_def comp_def)
qed

lemma fold_set_entry_id:
  assumes "enumeration_order (map fst kxs)"
  shows "foldl (\<lambda>kvs (k, x). set_entry k x kvs) [] kxs = kxs"
proof -
  let ?r = "foldl (\<lambda>kvs (k, x). set_entry k x kvs) [] kxs"
  have d: "distinct (map fst kxs)" using assms by (rule enumeration_order_distinct)
  have "map fst ?r = map fst (foldl (\<lambda>kvs k. set_entry k () kvs) [] (map fst kxs))"
    by (rule fold_set_entry_keys) simp
  then have keys: "map fst ?r = map fst kxs" using assms by (simp add: enumeration_order_def)
  have "map_of ?r = map_of kxs"
    using fold_set_entry_map_of [OF d, of "[]"] by simp
  with keys d show ?thesis by (intro same_keys_same_map) simp_all
qed

text \<open>A name that does not begin with a digit is no array index.\<close>

lemma array_index_name: "\<not> is_digit c \<Longrightarrow> array_index (c # s) = None"
  by (simp add: array_index_def)

lemma array_index_0: "array_index ''0'' = Some 0"
  by (simp add: array_index_def is_digit_def decimal_def digit_value_def)

section \<open>Properties of the classifier\<close>

lemma getValueType_export_cases:
  "getValueType_export v =
     (case v of
        JNull \<Rightarrow> Inr ''null''
      | JUndefined \<Rightarrow> Inr ''undefined''
      | JString s \<Rightarrow> Inr ''string''
      | JNumber n \<Rightarrow> Inr ''number''
      | JBool b \<Rightarrow> Inr ''boolean''
      | JDate d \<Rightarrow> Inr ''date''
      | JObjectId x \<Rightarrow> Inr ''objectId''
      | JArray xs \<Rightarrow> Inr ''array''
      | JObject kvs \<Rightarrow>
          (case constructor_name_export (JObject kvs) of
             Inl e \<Rightarrow> Inl e
           | Inr n \<Rightarrow> Inr (if n = JString ''ObjectId'' then ''objectId'' else ''object'')))"
  by (cases v)
     (simp_all add: getValueType_export_def constructor_name_export_def split: sum.splits)

lemma getValueType_cases:
  "getValueType H v =
     (case v of
        VNull \<Rightarrow> ''null''
      | VUndefined \<Rightarrow> ''undefined''
      | VString s \<Rightarrow> ''string''
      | VNumber n \<Rightarrow> ''number''
      | VBool b \<Rightarrow> ''boolean''
      | VDate d \<Rightarrow> ''date''
      | VObjectId x \<Rightarrow> ''objectId''
      | VRef a \<Rightarrow>
          (if isArray H (VRef a) then ''array''
           else if isObjectId H (VRef a) then ''objectId''
           else ''object''))"
  by (cases v) (simp_all add: getValueType_def isObjectId_def)

text \<open>
  The importer's copy of \<^verbatim>\<open>getValueType\<close> tests the constructor before it
  reads its name: it returns one of the nine tags on every value.
\<close>

lemma getValueType_tag: "getValueType H v \<in> set type_tags"
  by (cases v) (simp_all add: getValueType_cases type_tags_def)

text \<open>
  The exporter's copy returns one of the nine tags whenever it returns, and
  it throws exactly on the plain objects whose own property \<^verbatim>\<open>constructor\<close> is
  null or undefined.
\<close>

lemma name_export_throws:
  "(\<exists>e. name_export c = Inl e) \<longleftrightarrow> c = Own JNull \<or> c = Own JUndefined"
proof (cases c)
  case (Builtin n)
  then show ?thesis by simp
next
  case (Own w)
  then show ?thesis by (cases w) (simp_all split: option.splits)
qed

lemma getValueType_export_tag: "getValueType_export v = Inr t \<Longrightarrow> t \<in> set type_tags"
  by (cases v)
     (auto simp: getValueType_export_cases type_tags_def split: sum.splits if_splits)

lemma getValueType_export_throws_iff:
  "(\<exists>e. getValueType_export v = Inl e)
     \<longleftrightarrow> (\<exists>kvs. v = JObject kvs
               \<and> (map_of kvs ''constructor'' = Some JNull
                    \<or> map_of kvs ''constructor'' = Some JUndefined))"
proof (cases v)
  case (JObject kvs)
  have "(\<exists>e. getValueType_export (JObject kvs) = Inl e)
      \<longleftrightarrow> (\<exists>e. constructor_name_export (JObject kvs) = Inl e)"
    by (simp add: getValueType_export_cases split: sum.splits)
  also have "\<dots> \<longleftrightarrow> (map_of kvs ''constructor'' = Some JNull
      \<or> map_of kvs ''constructor'' = Some JUndefined)"
    using name_export_throws [of "Own (the (map_of kvs ''constructor''))"]
    by (cases "map_of kvs ''constructor''") (simp_all add: constructor_name_export_def)
  finally show ?thesis using JObject by simp
qed (simp_all add: getValueType_export_cases)

text \<open>
  Both copies know an ObjectId by the name of its constructor, so a plain
  object \<^verbatim>\<open>{"constructor": {"name": "ObjectId"}}\<close> passes for one.
\<close>

lemma getValueType_by_name:
  "getValueType_export (JObject [(''constructor'', JObject [(''name'', JString ''ObjectId'')])])
     = Inr ''objectId''"
  "getValueType [Obj [(''name'', VString ''ObjectId'')], Obj [(''constructor'', VRef 0)]] (VRef 1)
     = ''objectId''"
  by (simp_all add: getValueType_export_cases constructor_name_export_def
      getValueType_cases isObjectId_def own_properties_def get_property_def cell_at_def)

text \<open>
  C2. The classifier of the exporter is not total. On the plain object
  \<^verbatim>\<open>{"constructor": null}\<close> its line
  \<^verbatim>\<open>typeof value === 'object' && value.constructor.name === 'ObjectId'\<close> reads
  \<^verbatim>\<open>name\<close> from null and throws a TypeError, where the claim promises a tag.
  The copy of the importer, which tests \<^verbatim>\<open>value.constructor\<close> first, returns
  \<^verbatim>\<open>object\<close> on the same object.
\<close>

theorem getValueType_export_throws:
  "getValueType_export (JObject [(''constructor'', JNull)])
     = Inl (TypeError ''Cannot read properties of null (reading name)'')
   \<and> getValueType [Obj [(''constructor'', VNull)]] (VRef 0) = ''object''
   \<and> ''object'' \<in> set type_tags"
  by (simp add: getValueType_export_cases constructor_name_export_def
      getValueType_cases isObjectId_def own_properties_def cell_at_def type_tags_def)

section \<open>Properties of the casts\<close>

text \<open>
  C9. Whatever the target type, \<^verbatim>\<open>castToType\<close> returns null for null and
  undefined for undefined, with the store untouched: the test comes before
  any conversion, so neither value is converted and neither makes a cast fail.
\<close>

theorem castToType_null_undefined:
  "castToType h H VNull targetType fieldPath = (VNull, H)
   \<and> castToType h H VUndefined targetType fieldPath = (VUndefined, H)"
  by (simp add: castToType_def)

text \<open>
  C1, as the code has it. \<^verbatim>\<open>castToDate\<close> returns a date unchanged; parses a
  string with the runtime's date parser and throws when the result is the
  invalid date; and reads a number strictly greater than ten billion as
  milliseconds, every other number (ten billion itself included) as seconds,
  which it multiplies by 1000. It throws when the resulting time value is not
  a valid date.
\<close>

theorem castToDate_rules:
  "castToDate h (VDate d) = Inr (VDate d)
   \<and> castToDate h (VString s) =
       (case Date_parse h s of
          None \<Rightarrow> Inl (Error (''Invalid date string: '' @ [CHR 0x27] @ s @ [CHR 0x27]))
        | Some t \<Rightarrow> Inr (VDate (Some t)))
   \<and> castToDate h (VNumber n) =
       (case new_Date (if js_gt n (Fin 10000000000) then n else times h n (Fin 1000)) of
          None \<Rightarrow> Inl (Error (''Invalid timestamp: '' @ String_number h n))
        | Some t \<Rightarrow> Inr (VDate (Some t)))
   \<and> js_gt (Fin r) (Fin 10000000000) = (10000000000 < r)
   \<and> js_gt PosInf (Fin 10000000000)
   \<and> \<not> js_gt NegInf (Fin 10000000000)
   \<and> \<not> js_gt NaN (Fin 10000000000)"
  by (simp add: getTime_def Let_def split: option.split)

theorem castToDate_rules_witness:
  "castToDate example_runtime (VDate (Some 5)) = Inr (VDate (Some 5))
   \<and> castToDate example_runtime (VString ''not-a-date'')
       = Inl (Error (''Invalid date string: '' @ [CHR 0x27] @ ''not-a-date'' @ [CHR 0x27]))
   \<and> castToDate example_runtime (VNumber (Fin 10000000001)) = Inr (VDate (Some 10000000001))
   \<and> castToDate example_runtime (VNumber (Fin 1700000000)) = Inr (VDate (Some 1700000000000))"
  using castToDate_rules [where h = example_runtime and d = "Some 5" and s = "''not-a-date''"
      and n = "Fin 10000000001" and r = 10000000001]
    castToDate_rules [where h = example_runtime and d = "Some 5" and s = "''not-a-date''"
      and n = "Fin 1700000000" and r = 1700000000]
  by (simp add: example_runtime_def new_Date_def)

text \<open>
  The number ten billion itself is read as seconds: the date is
  \<open>10^13\<close> milliseconds after the epoch, not \<open>10^10\<close>.
\<close>

theorem castToDate_ten_billion:
  "castToDate example_runtime (VNumber (Fin 10000000000)) = Inr (VDate (Some 10000000000000))
   \<and> castToDate example_runtime (VNumber (Fin 10000000000))
       \<noteq> Inr (VDate (new_Date (Fin 10000000000)))"
  by (simp add: example_runtime_def new_Date_def getTime_def)

section \<open>The validator leaves its argument alone\<close>

lemma fresh_simps [simp]:
  "fresh n VNull" "fresh n VUndefined" "fresh n (VString s)" "fresh n (VNumber x)"
  "fresh n (VBool b)" "fresh n (VDate d)" "fresh n (VObjectId i)"
  "fresh n (VRef a) = (n \<le> a)"
  by (simp_all add: fresh_def)

lemma fresh_cell_simps [simp]:
  "fresh_cell n (Arr vs) = list_all (fresh n) vs"
  "fresh_cell n (Obj fs) = list_all (fresh n) (map snd fs)"
  by (simp_all add: fresh_cell_def)

lemma fresh_mono: "fresh m v \<Longrightarrow> n \<le> m \<Longrightarrow> fresh n v"
  by (cases v) simp_all

lemma fresh_cell_mono: "fresh_cell m c \<Longrightarrow> n \<le> m \<Longrightarrow> fresh_cell n c"
  by (auto simp: fresh_cell_def list_all_iff intro: fresh_mono)

lemma ext_refl: "ok n H \<Longrightarrow> ext n H H"
  by (simp add: ext_def)

lemma ext_trans: "ext n H H1 \<Longrightarrow> ext n H1 H2 \<Longrightarrow> ext n H H2"
  by (simp add: ext_def)

lemma ext_ok: "ext n H H' \<Longrightarrow> ok n H'"
  by (simp add: ext_def)

lemma ok_append: "ok n H \<Longrightarrow> list_all (fresh_cell n) ys \<Longrightarrow> ext n H (H @ ys)"
  by (simp add: ok_def ext_def)

lemma new_cell_ext:
  "ok n H \<Longrightarrow> fresh_cell n c \<Longrightarrow> new_cell c H = (v, H') \<Longrightarrow> fresh n v \<and> ext n H H'"
  using ok_append [of n H "[c]"] by (auto simp: new_cell_def ok_def)

lemma alloc_append:
  "alloc t H = (v, H') \<Longrightarrow>
     \<exists>ys. H' = H @ ys \<and> list_all (fresh_cell (length H)) ys \<and> fresh (length H) v"
  "alloc_list ts H = (vs, H') \<Longrightarrow>
     \<exists>ys. H' = H @ ys \<and> list_all (fresh_cell (length H)) ys \<and> list_all (fresh (length H)) vs"
  "alloc_fields kts H = (kvs, H') \<Longrightarrow>
     \<exists>ys. H' = H @ ys \<and> list_all (fresh_cell (length H)) ys
          \<and> list_all (fresh (length H)) (map snd kvs)"
proof (induction t H and ts H and kts H arbitrary: v H' and vs H' and kvs H'
    rule: alloc_alloc_list_alloc_fields.induct)
  case (8 xs H)
  obtain vs H1 where a: "alloc_list xs H = (vs, H1)" by force
  from 8(1)[OF a] obtain ys where ys: "H1 = H @ ys" "list_all (fresh_cell (length H)) ys"
     "list_all (fresh (length H)) vs" by blast
  from 8(2) a have "v = VRef (length H1)" "H' = H1 @ [Arr vs]" by auto
  with ys show ?case by auto
next
  case (9 kvs0 H)
  obtain fs H1 where a: "alloc_fields kvs0 H = (fs, H1)" by force
  from 9(1)[OF a] obtain ys where ys: "H1 = H @ ys" "list_all (fresh_cell (length H)) ys"
     "list_all (fresh (length H)) (map snd fs)" by blast
  from 9(2) a have "v = VRef (length H1)" "H' = H1 @ [Obj fs]" by auto
  with ys show ?case by auto
next
  case (11 x xs H)
  obtain v1 H1 where a: "alloc x H = (v1, H1)" by force
  obtain vs2 H2 where b: "alloc_list xs H1 = (vs2, H2)" by force
  from 11(1)[OF a] obtain ys where ys: "H1 = H @ ys" "list_all (fresh_cell (length H)) ys"
     "fresh (length H) v1" by blast
  from 11(2)[OF a[symmetric] b] obtain zs where zs: "H2 = H1 @ zs" "list_all (fresh_cell (length H1)) zs"
     "list_all (fresh (length H1)) vs2" by blast
  from 11(3) a b have r: "vs = v1 # vs2" "H' = H2" by auto
  have le: "length H \<le> length H1" using ys by simp
  from zs le have "list_all (fresh_cell (length H)) zs" "list_all (fresh (length H)) vs2"
    by (auto simp: list_all_iff intro: fresh_cell_mono fresh_mono)
  with ys zs r show ?case by auto
next
  case (13 k x kvs0 H)
  obtain v1 H1 where a: "alloc x H = (v1, H1)" by force
  obtain fs2 H2 where b: "alloc_fields kvs0 H1 = (fs2, H2)" by force
  from 13(1)[OF a] obtain ys where ys: "H1 = H @ ys" "list_all (fresh_cell (length H)) ys"
     "fresh (length H) v1" by blast
  from 13(2)[OF a[symmetric] b] obtain zs where zs: "H2 = H1 @ zs" "list_all (fresh_cell (length H1)) zs"
     "list_all (fresh (length H1)) (map snd fs2)" by blast
  from 13(3) a b have r: "kvs = (k, v1) # fs2" "H' = H2" by auto
  have le: "length H \<le> length H1" using ys by simp
  from zs le have "list_all (fresh_cell (length H)) zs" "list_all (fresh (length H)) (map snd fs2)"
    by (auto simp: list_all_iff intro: fresh_cell_mono fresh_mono)
  with ys zs r show ?case by auto
qed auto

lemma alloc_ext:
  assumes "ok n H" "alloc t H = (v, H')"
  shows "fresh n v \<and> ext n H H'"
proof -
  from alloc_append(1)[OF assms(2)] obtain ys where
    ys: "H' = H @ ys" "list_all (fresh_cell (length H)) ys" "fresh (length H) v" by blast
  have le: "n \<le> length H" using assms(1) by (simp add: ok_def)
  from ys le have "list_all (fresh_cell n) ys" "fresh n v"
    by (auto simp: list_all_iff intro: fresh_cell_mono fresh_mono)
  with ok_append[OF assms(1)] ys show ?thesis by simp
qed

lemma cell_at_Some: "cell_at H a = Some c \<longleftrightarrow> a < length H \<and> H ! a = c"
  by (auto simp: cell_at_def)

lemma ok_cell:
  assumes "ok n H" "n \<le> a" "a < length H"
  shows "fresh_cell n (H ! a)"
proof -
  have "a - n < length (drop n H)" using assms by simp
  moreover have "list_all (fresh_cell n) (drop n H)" using assms(1) by (simp add: ok_def)
  ultimately have "fresh_cell n (drop n H ! (a - n))" by (simp only: list_all_length)
  then show ?thesis using assms by simp
qed

lemma own_properties_cases:
  "own_properties H v = [] \<or> (\<exists>a. v = VRef a \<and> a < length H \<and> H ! a = Obj (own_properties H v))"
  by (cases v) (auto simp: own_properties_def cell_at_def split: cell.splits)

lemma own_properties_fresh:
  assumes "ok n H" "fresh n v"
  shows "list_all (fresh n) (map snd (own_properties H v))"
proof -
  from own_properties_cases [of H v] show ?thesis
  proof
    assume "own_properties H v = []"
    then show ?thesis by simp
  next
    assume "\<exists>a. v = VRef a \<and> a < length H \<and> H ! a = Obj (own_properties H v)"
    then obtain a where a: "v = VRef a" "a < length H" "H ! a = Obj (own_properties H v)" by blast
    have "fresh_cell n (H ! a)" using ok_cell [OF assms(1), of a] a assms(2) by simp
    then show ?thesis by (simp only: a(3) fresh_cell_simps)
  qed
qed

lemma get_property_fresh:
  assumes "ok n H" "fresh n v"
  shows "fresh n (get_property H v k)"
proof (cases "map_of (own_properties H v) k")
  case None
  then show ?thesis by (simp add: get_property_def)
next
  case (Some x)
  then have "x \<in> set (map snd (own_properties H v))"
    by (metis map_of_SomeD set_zip_rightD zip_map_fst_snd)
  with own_properties_fresh [OF assms] Some show ?thesis
    by (auto simp: get_property_def list_all_iff)
qed

lemma array_elements_cases:
  "array_elements H v = [] \<or> (\<exists>a. v = VRef a \<and> a < length H \<and> H ! a = Arr (array_elements H v))"
  by (cases v) (auto simp: array_elements_def cell_at_def split: cell.splits)

lemma array_elements_fresh:
  assumes "ok n H" "fresh n v"
  shows "list_all (fresh n) (array_elements H v)"
proof -
  from array_elements_cases [of H v] show ?thesis
  proof
    assume "array_elements H v = []"
    then show ?thesis by simp
  next
    assume "\<exists>a. v = VRef a \<and> a < length H \<and> H ! a = Arr (array_elements H v)"
    then obtain a where a: "v = VRef a" "a < length H" "H ! a = Arr (array_elements H v)" by blast
    have "fresh_cell n (H ! a)" using ok_cell [OF assms(1), of a] a assms(2) by simp
    then show ?thesis by (simp only: a(3) fresh_cell_simps)
  qed
qed

lemma set_entry_fresh:
  "list_all (fresh n) (map snd kvs) \<Longrightarrow> fresh n x \<Longrightarrow> list_all (fresh n) (map snd (set_entry k x kvs))"
  using set_entry_values [of k x kvs] unfolding list_all_iff by blast

lemma ok_update:
  assumes "ok n H" "n \<le> a" "fresh_cell n c"
  shows "ext n H (H[a := c])"
proof -
  have "drop n (H[a := c]) = (drop n H)[a - n := c]"
    using assms(2) by (simp add: drop_update_swap)
  moreover have "list_all (fresh_cell n) ((drop n H)[a - n := c])"
    using assms(1,3) by (auto simp: ok_def list_all_iff dest!: set_update_subset_insert [THEN subsetD])
  ultimately show ?thesis using assms(1,2) by (simp add: ext_def ok_def)
qed

lemma set_property_ext:
  assumes "ok n H" "fresh n v" "fresh n x"
  shows "ext n H (set_property H v k x)"
proof (cases v)
  case (VRef a)
  show ?thesis
  proof (cases "cell_at H a")
    case None
    then show ?thesis using VRef assms(1) by (simp add: set_property_def ext_refl)
  next
    case (Some c)
    then have a: "a < length H" "H ! a = c" by (simp_all add: cell_at_Some)
    show ?thesis
    proof (cases c)
      case (Obj kvs)
      have "fresh_cell n (H ! a)" using ok_cell [OF assms(1), of a] a(1) VRef assms(2) by simp
      then have "fresh_cell n (Obj kvs)" using a(2) Obj by simp
      then have "fresh_cell n (Obj (set_entry k x kvs))"
        using assms(3) by (simp add: set_entry_fresh)
      then show ?thesis using VRef Some Obj assms ok_update [of n H a]
        by (simp add: set_property_def)
    next
      case (Arr xs)
      then show ?thesis using VRef Some assms(1) by (simp add: set_property_def ext_refl)
    qed
  qed
qed (simp_all add: set_property_def ext_refl assms(1))

lemma castToArray_cases:
  "castToArray h H v = Inr r \<Longrightarrow>
     r = (v, H) \<or> (\<exists>t. r = alloc t H) \<or> r = new_cell (Arr [v]) H"
  by (cases v; cases "JSON_parse h (case v of VString s \<Rightarrow> s | _ \<Rightarrow> [])")
     (auto simp: castToArray_def simp del: alloc.simps split: if_splits jsval.splits)

lemma castToObject_cases:
  "castToObject h H v = Inr r \<Longrightarrow>
     r = (v, H) \<or> (\<exists>t. r = alloc t H) \<or> r = new_cell (Obj [(''value'', v)]) H"
  by (cases v; cases "JSON_parse h (case v of VString s \<Rightarrow> s | _ \<Rightarrow> [])")
     (auto simp: castToObject_def simp del: alloc.simps split: if_splits jsval.splits)

lemma castSwitch_cases:
  "castSwitch h H v t = Inr r \<Longrightarrow>
     r = (v, H) \<or> (\<exists>t. r = alloc t H) \<or> r = new_cell (Arr [v]) H
     \<or> r = new_cell (Obj [(''value'', v)]) H
     \<or> (snd r = H \<and> (\<forall>a. fst r \<noteq> VRef a))"
proof -
  assume a: "castSwitch h H v t = Inr r"
  have s: "\<And>w. castToString h H v = Inr w \<Longrightarrow> \<forall>a. w \<noteq> VRef a"
    by (cases v) (auto simp: toString_object_def split: option.splits if_splits)
  have nu: "\<And>w. castToNumber h v = Inr w \<Longrightarrow> \<forall>a. w \<noteq> VRef a"
    by (cases v) (auto simp: Let_def split: if_splits)
  have b: "\<And>w. castToBoolean v = Inr w \<Longrightarrow> \<forall>a. w \<noteq> VRef a"
    by (cases v) (auto simp: Let_def split: if_splits)
  have d: "\<And>w. castToDate h v = Inr w \<Longrightarrow> \<forall>a. w \<noteq> VRef a"
    by (cases v) (auto simp: Let_def split: if_splits)
  have oi: "\<And>w. castToObjectId h H v = Inr w \<Longrightarrow> w = v \<or> (\<forall>a. w \<noteq> VRef a)"
    by (cases v) (auto simp: Let_def split: if_splits)
  have prim: "\<And>x. with_heap H x = Inr r \<Longrightarrow> (\<And>w. x = Inr w \<Longrightarrow> \<forall>a. w \<noteq> VRef a)
      \<Longrightarrow> snd r = H \<and> (\<forall>a. fst r \<noteq> VRef a)"
    by (auto simp: with_heap_def split: sum.splits)
  consider "t = ''string''" | "t = ''number''" | "t = ''boolean''" | "t = ''date''"
    | "t = ''objectId''" | "t = ''array''" | "t = ''object''"
    | "t \<notin> {''string'', ''number'', ''boolean'', ''date'', ''objectId'', ''array'', ''object''}"
    by auto
  then show ?thesis
  proof cases
    case 1 then show ?thesis using a prim s by (simp add: castSwitch_def)
  next
    case 2 then show ?thesis using a prim nu by (simp add: castSwitch_def)
  next
    case 3 then show ?thesis using a prim b by (simp add: castSwitch_def)
  next
    case 4 then show ?thesis using a prim d by (simp add: castSwitch_def)
  next
    case 5 then show ?thesis using a oi
      by (cases "castToObjectId h H v") (auto simp: castSwitch_def with_heap_def)
  next
    case 6 then show ?thesis using a castToArray_cases [of h H v r] by (auto simp: castSwitch_def)
  next
    case 7 then show ?thesis using a castToObject_cases [of h H v r] by (auto simp: castSwitch_def)
  next
    case 8 then show ?thesis using a by (auto simp: castSwitch_def)
  qed
qed

lemma castSwitch_ext:
  assumes "ok n H" "fresh n v" "castSwitch h H v t = Inr (v', H')"
  shows "fresh n v' \<and> ext n H H'"
proof -
  from castSwitch_cases [OF assms(3)]
  consider "(v', H') = (v, H)" | t where "(v', H') = alloc t H"
    | "(v', H') = new_cell (Arr [v]) H" | "(v', H') = new_cell (Obj [(''value'', v)]) H"
    | "H' = H" "\<forall>a. v' \<noteq> VRef a"
    by auto
  then show ?thesis
  proof cases
    case 1 then show ?thesis using assms by (simp add: ext_refl)
  next
    case 2 then show ?thesis using alloc_ext [OF assms(1), of t v' H'] by simp
  next
    case 3 then show ?thesis using new_cell_ext [OF assms(1), of "Arr [v]" v' H'] assms(2) by simp
  next
    case 4 then show ?thesis
      using new_cell_ext [OF assms(1), of "Obj [(''value'', v)]" v' H'] assms(2) by simp
  next
    case 5 then show ?thesis using assms(1) by (cases v') (simp_all add: ext_refl)
  qed
qed

lemma castToType_ext:
  assumes "ok n H" "fresh n v" "castToType h H v t p = (v', H')"
  shows "fresh n v' \<and> ext n H H'"
  using assms castSwitch_ext [OF assms(1,2)]
  by (auto simp: castToType_def ext_refl split: if_splits sum.splits)

lemma castStep_ext:
  assumes "ok n (heap st)" "fresh n v" "castStep h opts v fs p st = ((v', c), st')"
  shows "fresh n v' \<and> ext n (heap st) (heap st')"
proof (cases "typeCasting opts \<and> getValueType (heap st) v \<noteq> fs_type fs")
  case True
  obtain fv H1 where c: "castToType h (heap st) v (fs_type fs) p = (fv, H1)" by force
  from castToType_ext [OF assms(1,2) c] have "fresh n fv" "ext n (heap st) H1" by auto
  then show ?thesis using assms(3) True c
    by (auto simp: castStep_def Let_def split: if_splits)
next
  case False
  then show ?thesis using assms
    by (auto simp: castStep_def Let_def ext_refl split: if_splits)
qed

lemma heap_checkMissing [simp]: "heap (checkMissing fs p st) = heap st"
  by (simp add: checkMissing_def)

lemma validate_ext:
  "ok n (heap st) \<Longrightarrow> fresh n v \<Longrightarrow> validateField h opts v fs p st = Inr ((x, c), st')
     \<Longrightarrow> fresh n x \<and> ext n (heap st) (heap st')"
  "ok n (heap st) \<Longrightarrow> fresh n fv \<Longrightarrow> validateNested h opts fv es p c0 st = Inr (c, st')
     \<Longrightarrow> ext n (heap st) (heap st')"
  "ok n (heap st) \<Longrightarrow> list_all (fresh n) items
     \<Longrightarrow> validateItems h opts items t p i c0 st = Inr ((xs, c), st')
     \<Longrightarrow> list_all (fresh n) xs \<and> ext n (heap st) (heap st')"
proof (induction h opts v fs p st and h opts fv es p c0 st and h opts items t p i c0 st
    arbitrary: x c st' and c st' and xs c st'
    rule: validateField_validateNested_validateItems.induct)
  case (1 h opts v t r nn nf aet fieldPath st)
  let ?fs = "FieldSchema t r nn nf aet"
  show ?case
  proof (cases "v = VNull \<or> v = VUndefined")
    case True
    with "1.prems" show ?thesis by (auto simp: ext_refl)
  next
    case False
    obtain fv cp st2 where cs: "castStep h opts v ?fs fieldPath st = ((fv, cp), st2)"
      by (metis prod.exhaust)
    from castStep_ext [OF "1.prems"(1,2) cs]
    have fv: "fresh n fv" and e2: "ext n (heap st) (heap st2)" by auto
    define ft where "ft = getValueType (heap st2) fv"
    let ?nested = "if ft = ''object''
        then case nf of None \<Rightarrow> Inr (cp, st2)
             | Some es \<Rightarrow> validateNested h opts fv es fieldPath cp st2
        else Inr (cp, st2)"
    from "1.prems"(3) False cs obtain c3 st3 where nest: "?nested = Inr (c3, st3)"
      by (cases ?nested) (auto simp: ft_def [symmetric] Let_def)
    have e3: "ext n (heap st2) (heap st3)"
    proof (cases "ft = ''object'' \<and> nf \<noteq> None")
      case True
      then obtain es where es: "nf = Some es" by auto
      with True nest have "validateNested h opts fv es fieldPath cp st2 = Inr (c3, st3)" by simp
      from "1.IH"(1) [OF False cs [symmetric] refl ft_def _ es ext_ok [OF e2] fv this] True
      show ?thesis by simp
    next
      case False
      with nest have "st3 = st2" by (auto split: if_splits option.splits)
      with e2 show ?thesis by (simp add: ext_refl ext_ok)
    qed
    show ?thesis
    proof (cases "ft = ''array'' \<and> isArray (heap st3) fv \<and> truthy_string aet")
      case True
      let ?items = "validateItems h opts (array_elements (heap st3) fv)
           (case aet of None \<Rightarrow> [] | Some e \<Rightarrow> e) fieldPath 0 c3 st3"
      from "1.prems"(3) False cs nest True obtain items c4 st4 where
        it: "?items = Inr ((items, c4), st4)"
        by (cases ?items) (auto simp: ft_def [symmetric] Let_def)
      have fr: "list_all (fresh n) (array_elements (heap st3) fv)"
        using array_elements_fresh [OF ext_ok [OF e3] fv] .
      from "1.IH"(2) [OF False cs [symmetric] refl ft_def nest refl True ext_ok [OF e3] fr it]
      have items: "list_all (fresh n) items" and e4: "ext n (heap st3) (heap st4)" by auto
      obtain mapped H5 where nc: "new_cell (Arr items) (heap st4) = (mapped, H5)"
        by (metis prod.exhaust)
      from new_cell_ext [OF ext_ok [OF e4] _ nc] items
      have m: "fresh n mapped" and e5: "ext n (heap st4) H5" by auto
      from "1.prems"(3) False cs nest True it nc
      have "x = mapped" "heap st' = H5"
        by (auto simp: ft_def [symmetric] Let_def)
      with m e2 e3 e4 e5 show ?thesis by (metis ext_trans)
    next
      case False
      from "1.prems"(3) \<open>\<not> (v = VNull \<or> v = VUndefined)\<close> cs nest False
      have "x = fv" "st' = st3"
        by (auto simp: ft_def [symmetric] Let_def)
      with fv e2 e3 show ?thesis by (metis ext_trans)
    qed
  qed
next
  case (2 h opts finalValue fieldPath castingPerformed st)
  then show ?case by (simp add: ext_refl)
next
  case (3 h opts finalValue nestedField nestedSchema es fieldPath castingPerformed st)
  from "3.prems"(3) obtain present where
    hp: "hasOwnProperty (heap st) finalValue nestedField = Inr present"
    by (cases "hasOwnProperty (heap st) finalValue nestedField") auto
  show ?case
  proof (cases present)
    case True
    let ?field = "validateField h opts (get_property (heap st) finalValue nestedField)
        nestedSchema (fieldPath @ ''.'' @ nestedField) st"
    from "3.prems"(3) hp True obtain x1 c1 st1 where vf: "?field = Inr ((x1, c1), st1)"
      by (cases ?field) auto
    have g: "fresh n (get_property (heap st) finalValue nestedField)"
      using get_property_fresh [OF "3.prems"(1,2)] .
    from "3.IH"(1) [OF hp True "3.prems"(1) g vf]
    have x1: "fresh n x1" and e1: "ext n (heap st) (heap st1)" by auto
    let ?st1' = "st1\<lparr>heap := set_property (heap st1) finalValue nestedField x1\<rparr>"
    have e2: "ext n (heap st1) (heap ?st1')"
      using set_property_ext [OF ext_ok [OF e1] "3.prems"(2) x1] by simp
    from "3.prems"(3) hp True vf
    have "validateNested h opts finalValue es fieldPath (castingPerformed \<or> c1) ?st1'
        = Inr (c, st')"
      by simp
    from "3.IH"(2) [OF hp True vf refl refl ext_ok [OF e2] "3.prems"(2) this]
    have "ext n (heap ?st1') (heap st')" .
    with e1 e2 show ?thesis by (metis ext_trans)
  next
    case False
    with "3.prems"(3) hp
    have "validateNested h opts finalValue es fieldPath castingPerformed st = Inr (c, st')"
      by simp
    from "3.IH"(3) [OF hp False "3.prems"(1,2) this] show ?thesis .
  qed
next
  case (4 h opts t fieldPath i castingPerformed st)
  then show ?case by (simp add: ext_refl)
next
  case (5 h opts item items t fieldPath i castingPerformed st)
  let ?field = "validateField h opts item (elementSchema t)
      (fieldPath @ ''['' @ show_nat i @ '']'') st"
  from "5.prems"(3) obtain x1 c1 st1 where vf: "?field = Inr ((x1, c1), st1)"
    by (cases ?field) auto
  from "5.prems"(2) have it: "fresh n item" "list_all (fresh n) items" by simp_all
  from "5.IH"(1) [OF "5.prems"(1) it(1) vf]
  have x1: "fresh n x1" and e1: "ext n (heap st) (heap st1)" by auto
  let ?items = "validateItems h opts items t fieldPath (Suc i) (castingPerformed \<or> c1) st1"
  from "5.prems"(3) vf obtain xs2 c2 st2 where vi: "?items = Inr ((xs2, c2), st2)"
    by (cases ?items) auto
  from "5.IH"(2) [OF vf refl refl ext_ok [OF e1] it(2) vi]
  have xs2: "list_all (fresh n) xs2" and e2: "ext n (heap st1) (heap st2)" by auto
  from "5.prems"(3) vf vi have "xs = x1 # xs2" "st' = st2" by auto
  with x1 xs2 ext_trans [OF e1 e2] show ?case by simp
qed

lemma validateFields_ext:
  "ok n (heap st) \<Longrightarrow> fresh n d \<Longrightarrow> validateFields h opts d fs st = Inr st'
     \<Longrightarrow> ext n (heap st) (heap st')"
proof (induction fs arbitrary: st)
  case Nil
  then show ?case by (simp add: ext_refl)
next
  case (Cons kf fs)
  obtain k f where kf: "kf = (k, f)" by (cases kf)
  from Cons.prems(3) kf obtain present where hp: "hasOwnProperty (heap st) d k = Inr present"
    by (cases "hasOwnProperty (heap st) d k") auto
  show ?case
  proof (cases present)
    case True
    let ?field = "validateField h opts (get_property (heap st) d k) f k st"
    from Cons.prems(3) kf hp True obtain x c st1 where vf: "?field = Inr ((x, c), st1)"
      by (cases ?field) auto
    from validate_ext(1) [OF Cons.prems(1) get_property_fresh [OF Cons.prems(1,2)] vf]
    have x: "fresh n x" and e1: "ext n (heap st) (heap st1)" by auto
    let ?st1' = "st1\<lparr>heap := set_property (heap st1) d k x\<rparr>"
    have e2: "ext n (heap st1) (heap ?st1')"
      using set_property_ext [OF ext_ok [OF e1] Cons.prems(2) x] by simp
    from Cons.prems(3) kf hp True vf have "validateFields h opts d fs ?st1' = Inr st'"
      by simp
    from Cons.IH [OF ext_ok [OF e2] Cons.prems(2) this]
    have e3: "ext n (heap ?st1') (heap st')" .
    with e1 e2 show ?thesis by (metis ext_trans)
  next
    case False
    with Cons.prems(3) kf hp
    have "validateFields h opts d fs (checkMissing f k st) = Inr st'" by simp
    from Cons.IH [OF _ Cons.prems(2) this] Cons.prems(1) show ?thesis by simp
  qed
qed

lemma those_map_cong:
  assumes "those (map f xs) = Some ys" "\<And>x y. x \<in> set xs \<Longrightarrow> f x = Some y \<Longrightarrow> g x = Some y"
  shows "those (map g xs) = Some ys"
  using assms by (induction xs arbitrary: ys) (auto split: option.splits)

lemma reify_extend:
  "reify n H v = Some t \<Longrightarrow> n \<le> m \<Longrightarrow> reify m (H @ ys) v = Some t"
proof (induction n arbitrary: m v t)
  case 0
  then show ?case by (cases v) auto
next
  case (Suc n)
  show ?case
  proof (cases v)
    case (VRef a)
    from Suc.prems(2) obtain m' where m: "m = Suc m'" "n \<le> m'" by (cases m) auto
    from Suc.prems(1) VRef obtain c where c: "cell_at H a = Some c"
      by (auto split: option.splits)
    then have c': "cell_at (H @ ys) a = Some c" by (auto simp: cell_at_def nth_append split: if_splits)
    show ?thesis
    proof (cases c)
      case (Obj kvs)
      with Suc.prems(1) VRef c obtain fs where
        fs: "those (map (\<lambda>(k, v). map_option (Pair k) (reify n H v)) kvs) = Some fs" "t = JObject fs"
        by auto
      have "those (map (\<lambda>(k, v). map_option (Pair k) (reify m' (H @ ys) v)) kvs) = Some fs"
        using fs(1) by (rule those_map_cong) (auto dest: Suc.IH [OF _ m(2)])
      with VRef c' Obj m fs(2) show ?thesis by simp
    next
      case (Arr xs)
      with Suc.prems(1) VRef c obtain zs where
        zs: "those (map (reify n H) xs) = Some zs" "t = JArray zs"
        by auto
      have "those (map (reify m' (H @ ys)) xs) = Some zs"
        using zs(1) by (rule those_map_cong) (auto dest: Suc.IH [OF _ m(2)])
      with VRef c' Arr m zs(2) show ?thesis by simp
    qed
  qed (use Suc.prems in auto)
qed

lemma validateDocument_heap:
  assumes "validateDocument h opts doc schema H = Inr rep"
  shows "ext (length H) H (heap rep)"
proof -
  from assms obtain vd H1 where cp: "JSON_copy h H doc = Inr (vd, H1)"
    by (auto simp: validateDocument_def split: sum.splits)
  then obtain t where "alloc t H = (vd, H1)"
    by (auto simp: JSON_copy_def split: option.splits)
  moreover have ok0: "ok (length H) H" by (simp add: ok_def)
  ultimately have vd: "fresh (length H) vd" and e1: "ext (length H) H H1"
    using alloc_ext by blast+
  let ?st = "\<lparr>heap = H1, errors = [], warnings = [], typeCastingCount = 0\<rparr>"
  from assms cp obtain st' where
    vf: "validateFields h opts vd (schema_fields schema) ?st = Inr st'"
    and rep: "heap rep = heap st'"
    by (auto simp: validateDocument_def split: if_splits sum.splits)
  have "ext (length H) (heap ?st) (heap st')"
    using validateFields_ext [of "length H" ?st vd h opts "schema_fields schema" st']
      ext_ok [OF e1] vd vf by simp
  with rep e1 show ?thesis by (metis ext_trans vstate.select_convs(1))
qed

text \<open>
  C4. \<^verbatim>\<open>validateDocument\<close> works on a copy: when it returns, every cell of
  the store that existed before the call is unchanged (all writes and all new
  cells lie above the old store), and the tree below the argument \<open>doc\<close> is
  the tree it was before the call.
\<close>

theorem validateDocument_frame:
  assumes "validateDocument h opts doc schema H = Inr rep"
  shows "take (length H) (heap rep) = H
    \<and> (\<exists>t. reify (length H) H doc = Some t
            \<and> reify (length (heap rep)) (heap rep) doc = Some t)"
proof -
  from validateDocument_heap [OF assms]
  have tk: "take (length H) (heap rep) = H" and le: "length H \<le> length (heap rep)"
    by (simp_all add: ext_def ok_def)
  then have ap: "heap rep = H @ drop (length H) (heap rep)"
    by (metis append_take_drop_id)
  from assms obtain t where t: "reify (length H) H doc = Some t"
    by (auto simp: validateDocument_def JSON_copy_def split: sum.splits option.splits)
  from reify_extend [OF t le, of "drop (length H) (heap rep)"] ap
  have "reify (length (heap rep)) (heap rep) doc = Some t" by simp
  with tk t show ?thesis by simp
qed

lemma toLowerCase_yes: "toLowerCase ''yes'' = ''yes''"
  by code_simp

lemma example_Number_34: "Number_string example_runtime ''34'' = Fin 34"
  by (simp add: example_runtime_def example_Number_def is_digit_def digit_value_def decimal_def)

lemma validateDocument_example:
  "validateDocument example_runtime IMPORT_OPTIONS (VRef 0) example_schema example_heap
     = Inr \<lparr>heap = example_heap @ [Obj [(''age'', VNumber (Fin 34)), (''active'', VBool True)]],
             errors = [], warnings = [], typeCastingCount = 2,
             isValid = True, document = VRef 1\<rparr>"
  by (simp add: example_heap_def example_schema_def IMPORT_OPTIONS_def example_Number_34
        validateDocument_def JSON_copy_def is_plain_object_def cell_at_def
        hasOwnProperty_def own_properties_def get_property_def set_property_def set_entry_def
        castStep_def castToType_def castSwitch_def with_heap_def getValueType_cases
        strict_neq_def toLowerCase_yes Let_def)

theorem validateDocument_frame_witness:
  "take (length example_heap)
     (example_heap @ [Obj [(''age'', VNumber (Fin 34)), (''active'', VBool True)]]) = example_heap
   \<and> reify (length example_heap) example_heap (VRef 0)
       = Some (JObject [(''age'', JString ''34''), (''active'', JString ''yes'')])
   \<and> reify 2 (example_heap @ [Obj [(''age'', VNumber (Fin 34)), (''active'', VBool True)]]) (VRef 0)
       = Some (JObject [(''age'', JString ''34''), (''active'', JString ''yes'')])"
  using validateDocument_frame [OF validateDocument_example]
  by (simp add: example_heap_def cell_at_def numeral_2_eq_2)

section \<open>Validity of a report\<close>

lemma errors_grow_refl: "errors_grow st st"
  by (simp add: errors_grow_def)

lemma errors_grow_same: "errors st' = errors st \<Longrightarrow> errors_grow st st'"
  by (simp add: errors_grow_def)

lemma errors_grow_trans: "errors_grow st st1 \<Longrightarrow> errors_grow st1 st2 \<Longrightarrow> errors_grow st st2"
  by (auto simp: errors_grow_def)

lemma errors_grow_checkMissing: "errors_grow st (checkMissing fs p st)"
  by (auto simp: errors_grow_def checkMissing_def is_required_message_def)

lemma errors_castStep:
  "castStep h opts v fs p st = (r, st') \<Longrightarrow> errors st' = errors st"
  by (auto simp: castStep_def Let_def split: if_splits prod.splits)

lemma validate_errors:
  "validateField h opts v fs p st = Inr (r, st') \<Longrightarrow> errors_grow st st'"
  "validateNested h opts fv es p c0 st = Inr (c, st') \<Longrightarrow> errors_grow st st'"
  "validateItems h opts items t p i c0 st = Inr (rs, st') \<Longrightarrow> errors_grow st st'"
proof (induction h opts v fs p st and h opts fv es p c0 st and h opts items t p i c0 st
    arbitrary: r st' and c st' and rs st'
    rule: validateField_validateNested_validateItems.induct)
  case (1 h opts v t r0 nn nf aet fieldPath st)
  let ?fs = "FieldSchema t r0 nn nf aet"
  show ?case
  proof (cases "v = VNull \<or> v = VUndefined")
    case True
    with "1.prems" show ?thesis by (auto simp: errors_grow_checkMissing)
  next
    case False
    obtain fv cp st2 where cs: "castStep h opts v ?fs fieldPath st = ((fv, cp), st2)"
      by (metis prod.exhaust)
    have g2: "errors_grow st st2" using errors_castStep [OF cs] by (rule errors_grow_same)
    define ft where "ft = getValueType (heap st2) fv"
    let ?nested = "if ft = ''object''
        then case nf of None \<Rightarrow> Inr (cp, st2)
             | Some es \<Rightarrow> validateNested h opts fv es fieldPath cp st2
        else Inr (cp, st2)"
    from "1.prems" False cs obtain c3 st3 where nest: "?nested = Inr (c3, st3)"
      by (cases ?nested) (auto simp: ft_def [symmetric] Let_def)
    have g3: "errors_grow st2 st3"
    proof (cases "ft = ''object'' \<and> nf \<noteq> None")
      case True
      then obtain es where es: "nf = Some es" by auto
      with True nest have "validateNested h opts fv es fieldPath cp st2 = Inr (c3, st3)" by simp
      from "1.IH"(1) [OF False cs [symmetric] refl ft_def _ es this] True
      show ?thesis by simp
    next
      case False
      with nest have "st3 = st2" by (auto split: if_splits option.splits)
      then show ?thesis by (simp add: errors_grow_refl)
    qed
    show ?thesis
    proof (cases "ft = ''array'' \<and> isArray (heap st3) fv \<and> truthy_string aet")
      case True
      let ?items = "validateItems h opts (array_elements (heap st3) fv)
           (case aet of None \<Rightarrow> [] | Some e \<Rightarrow> e) fieldPath 0 c3 st3"
      from "1.prems" False cs nest True obtain items c4 st4 where
        it: "?items = Inr ((items, c4), st4)"
        by (cases ?items) (auto simp: ft_def [symmetric] Let_def)
      from "1.IH"(2) [OF False cs [symmetric] refl ft_def nest refl True it]
      have g4: "errors_grow st3 st4" .
      from "1.prems" False cs nest True it
      have "errors st' = errors st4"
        by (auto simp: ft_def [symmetric] Let_def new_cell_def)
      then have "errors_grow st4 st'" by (rule errors_grow_same)
      with g2 g3 g4 show ?thesis by (metis errors_grow_trans)
    next
      case False
      from "1.prems" \<open>\<not> (v = VNull \<or> v = VUndefined)\<close> cs nest False
      have "st' = st3"
        by (auto simp: ft_def [symmetric] Let_def)
      with g2 g3 show ?thesis by (metis errors_grow_trans)
    qed
  qed
next
  case (2 h opts finalValue fieldPath castingPerformed st)
  then show ?case by (simp add: errors_grow_refl)
next
  case (3 h opts finalValue nestedField nestedSchema es fieldPath castingPerformed st)
  from "3.prems" obtain present where
    hp: "hasOwnProperty (heap st) finalValue nestedField = Inr present"
    by (cases "hasOwnProperty (heap st) finalValue nestedField") auto
  show ?case
  proof (cases present)
    case True
    let ?field = "validateField h opts (get_property (heap st) finalValue nestedField)
        nestedSchema (fieldPath @ ''.'' @ nestedField) st"
    from "3.prems" hp True obtain x1 c1 st1 where vf: "?field = Inr ((x1, c1), st1)"
      by (cases ?field) auto
    from "3.IH"(1) [OF hp True vf] have g1: "errors_grow st st1" .
    let ?st1' = "st1\<lparr>heap := set_property (heap st1) finalValue nestedField x1\<rparr>"
    have g2: "errors_grow st1 ?st1'" by (rule errors_grow_same) simp
    from "3.prems" hp True vf
    have "validateNested h opts finalValue es fieldPath (castingPerformed \<or> c1) ?st1'
        = Inr (c, st')"
      by simp
    from "3.IH"(2) [OF hp True vf refl refl this]
    have "errors_grow ?st1' st'" .
    with g1 g2 show ?thesis by (metis errors_grow_trans)
  next
    case False
    with "3.prems" hp
    have "validateNested h opts finalValue es fieldPath castingPerformed st = Inr (c, st')"
      by simp
    from "3.IH"(3) [OF hp False this] show ?thesis .
  qed
next
  case (4 h opts t fieldPath i castingPerformed st)
  then show ?case by (simp add: errors_grow_refl)
next
  case (5 h opts item items t fieldPath i castingPerformed st)
  let ?field = "validateField h opts item (elementSchema t)
      (fieldPath @ ''['' @ show_nat i @ '']'') st"
  from "5.prems" obtain x1 c1 st1 where vf: "?field = Inr ((x1, c1), st1)"
    by (cases ?field) auto
  from "5.IH"(1) [OF vf] have g1: "errors_grow st st1" .
  let ?items = "validateItems h opts items t fieldPath (Suc i) (castingPerformed \<or> c1) st1"
  from "5.prems" vf obtain xs2 c2 st2 where vi: "?items = Inr ((xs2, c2), st2)"
    by (cases ?items) auto
  from "5.IH"(2) [OF vf refl refl vi] have g2: "errors_grow st1 st2" .
  from "5.prems" vf vi have "st' = st2" by auto
  with g1 g2 show ?case by (metis errors_grow_trans)
qed

lemma validateFields_errors:
  "validateFields h opts d fs st = Inr st' \<Longrightarrow> errors_grow st st'"
proof (induction fs arbitrary: st)
  case Nil
  then show ?case by (simp add: errors_grow_refl)
next
  case (Cons kf fs)
  obtain k f where kf: "kf = (k, f)" by (cases kf)
  from Cons.prems kf obtain present where hp: "hasOwnProperty (heap st) d k = Inr present"
    by (cases "hasOwnProperty (heap st) d k") auto
  show ?case
  proof (cases present)
    case True
    let ?field = "validateField h opts (get_property (heap st) d k) f k st"
    from Cons.prems kf hp True obtain x c st1 where vf: "?field = Inr ((x, c), st1)"
      by (cases ?field) auto
    let ?st1' = "st1\<lparr>heap := set_property (heap st1) d k x\<rparr>"
    have g1: "errors_grow st st1" using validate_errors(1) [OF vf] .
    have g2: "errors_grow st1 ?st1'" by (rule errors_grow_same) simp
    from Cons.prems kf hp True vf have "validateFields h opts d fs ?st1' = Inr st'" by simp
    from Cons.IH [OF this] have g3: "errors_grow ?st1' st'" .
    with g1 g2 show ?thesis by (metis errors_grow_trans)
  next
    case False
    with Cons.prems kf hp
    have "validateFields h opts d fs (checkMissing f k st) = Inr st'" by simp
    from Cons.IH [OF this] errors_grow_checkMissing [of st f k]
    show ?thesis by (metis errors_grow_trans)
  qed
qed

text \<open>
  C10. In every report that \<^verbatim>\<open>validateDocument\<close> returns, \<^verbatim>\<open>isValid\<close> is true
  exactly when \<^verbatim>\<open>errors\<close> is empty, whatever the warnings and the cast count
  are; and every entry of \<^verbatim>\<open>errors\<close> is a \<^verbatim>\<open>Required field ... is missing\<close>
  message.
\<close>

theorem validateDocument_isValid:
  assumes "validateDocument h opts doc schema H = Inr rep"
  shows "isValid rep = (errors rep = []) \<and> list_all is_required_message (errors rep)"
proof -
  from assms obtain vd H1 where cp: "JSON_copy h H doc = Inr (vd, H1)"
    by (auto simp: validateDocument_def split: sum.splits)
  let ?init = "\<lparr>heap = H1, errors = [], warnings = [], typeCastingCount = 0\<rparr>"
  from assms cp obtain fin where
    vf: "validateFields h opts vd (schema_fields schema) ?init = Inr fin"
    and r: "isValid rep = (errors fin = [])" "errors rep = errors fin"
    by (auto simp: validateDocument_def split: if_splits sum.splits)
  from validateFields_errors [OF vf]
  have "list_all is_required_message (errors fin)"
    by (auto simp: errors_grow_def)
  with r show ?thesis by simp
qed

lemma validateDocument_missing:
  "validateDocument example_runtime IMPORT_OPTIONS (VRef 0) missing_schema missing_heap
     = Inr \<lparr>heap = missing_heap @ [Obj [(''age'', VString ''34'')]],
             errors = [required_message ''email''], warnings = [], typeCastingCount = 1,
             isValid = False, document = VRef 1\<rparr>"
  by (simp add: missing_heap_def missing_schema_def IMPORT_OPTIONS_def
        example_runtime_def example_String_def show_nat.simps
        validateDocument_def JSON_copy_def is_plain_object_def cell_at_def
        hasOwnProperty_def own_properties_def get_property_def set_property_def set_entry_def
        castStep_def castToType_def castSwitch_def with_heap_def getValueType_cases
        strict_neq_def checkMissing_def Let_def)

theorem validateDocument_isValid_witness:
  "isValid \<lparr>heap = missing_heap @ [Obj [(''age'', VString ''34'')]],
             errors = [required_message ''email''], warnings = [], typeCastingCount = 1,
             isValid = False, document = VRef 1\<rparr>
     = ([required_message ''email''] = [])
   \<and> list_all is_required_message [required_message ''email'']"
  using validateDocument_isValid [OF validateDocument_missing]
  by simp

section \<open>Validation scenarios\<close>

text \<open>
  C5. In every runtime where \<^verbatim>\<open>Number("34")\<close> is 34, with type casting on,
  validating a document that reads \<^verbatim>\<open>{"age": "34", "active": "yes"}\<close> against a
  schema that declares \<^verbatim>\<open>age\<close> a number and \<^verbatim>\<open>active\<close> a boolean returns a
  report whose document is a new object \<^verbatim>\<open>{"age": 34, "active": true}\<close>, with
  cast count 2, no errors and no warnings.
\<close>

theorem validateDocument_scenario_A:
  assumes "Number_string h ''34'' = Fin 34"
    and "typeCasting opts"
    and "fs_type ageSchema = ''number''" and "fs_type activeSchema = ''boolean''"
    and "reify (length H) H doc
           = Some (JObject [(''age'', JString ''34''), (''active'', JString ''yes'')])"
  shows "validateDocument h opts doc
           \<lparr>schema_name = n, schema_fields = [(''age'', ageSchema), (''active'', activeSchema)]\<rparr> H
         = Inr \<lparr>heap = H @ [Obj [(''age'', VNumber (Fin 34)), (''active'', VBool True)]],
                 errors = [], warnings = [], typeCastingCount = 2,
                 isValid = True, document = VRef (length H)\<rparr>"
proof -
  obtain t r nn nf aet where A: "ageSchema = FieldSchema t r nn nf aet"
    by (cases ageSchema)
  obtain t' r' nn' nf' aet' where B: "activeSchema = FieldSchema t' r' nn' nf' aet'"
    by (cases activeSchema)
  show ?thesis
    using assms
    by (simp add: A B validateDocument_def JSON_copy_def is_plain_object_def cell_at_def
        hasOwnProperty_def own_properties_def get_property_def set_property_def set_entry_def
        castStep_def castToType_def castSwitch_def with_heap_def getValueType_cases
        strict_neq_def toLowerCase_yes Let_def)
qed

theorem validateDocument_scenario_A_witness:
  "validateDocument example_runtime IMPORT_OPTIONS (VRef 0)
     \<lparr>schema_name = ''people'',
      schema_fields = [(''age'', FieldSchema ''number'' False None None None),
                       (''active'', FieldSchema ''boolean'' False None None None)]\<rparr>
     [Obj [(''age'', VString ''34''), (''active'', VString ''yes'')]]
   = Inr \<lparr>heap = [Obj [(''age'', VString ''34''), (''active'', VString ''yes'')],
                   Obj [(''age'', VNumber (Fin 34)), (''active'', VBool True)]],
           errors = [], warnings = [], typeCastingCount = 2,
           isValid = True, document = VRef 1\<rparr>"
  using validateDocument_scenario_A [of example_runtime IMPORT_OPTIONS
      "FieldSchema ''number'' False None None None"
      "FieldSchema ''boolean'' False None None None"
      "[Obj [(''age'', VString ''34''), (''active'', VString ''yes'')]]" "VRef 0" "''people''"]
  by (simp add: example_Number_34 IMPORT_OPTIONS_def cell_at_def)

section \<open>A cast that fails\<close>



lemma after_failed_cast_simps [simp]:
  "heap (after_failed_cast opts v fs p st) = heap st"
  "errors (after_failed_cast opts v fs p st) = errors st"
  "warnings (after_failed_cast opts v fs p st)
     = warnings st @ [mismatch_message opts p (getValueType (heap st) v) (fs_type fs)]"
  by (simp_all add: after_failed_cast_def)







section \<open>Schema inference and the members of \<^verbatim>\<open>Object.prototype\<close>\<close>

text \<open>
  On documents whose field paths stay clear of the members of
  \<^verbatim>\<open>Object.prototype\<close> the inference does what it is meant to do. Two
  documents \<^verbatim>\<open>{"a": 1, "b": null}\<close> and \<^verbatim>\<open>{"a": "x", "b": null, "0": true}\<close>:
  \<^verbatim>\<open>a\<close> is a number once and a string once, and the later tag wins the tie;
  \<^verbatim>\<open>b\<close> is nullable; the path \<^verbatim>\<open>0\<close>, an array index, is enumerated first.
\<close>

lemma analyzeFieldTypes_plain:
  "analyzeFieldTypes example_runtime
     [[(''a'', JNumber (Fin 1)), (''b'', JNull)],
      [(''0'', JBool True), (''a'', JString ''x''), (''b'', JNull)]]
   = Inr [(''0'', \<lparr>info_type = ''boolean'', nullable = False, samples = 1\<rparr>),
          (''a'', \<lparr>info_type = ''string'', nullable = False, samples = 1\<rparr>),
          (''b'', \<lparr>info_type = ''null'', nullable = True, samples = 2\<rparr>)]"
  by (simp add: analyzeFieldTypes_def full_key_def
      record_type_def count_type_def read_count_def prototype_functions_def
      set_entry_def create_entry_def array_index_name array_index_0 is_digit_def
      getValueType_export_cases summarize_def mostCommon_def
      count_gt_def max_count_def Let_def)

text \<open>
  The walk throws on a nested object whose own property \<^verbatim>\<open>constructor\<close> is
  null, as the classifier does.
\<close>

lemma analyzeFieldTypes_throws:
  "analyzeFieldTypes example_runtime [[(''x'', JObject [(''constructor'', JNull)])]]
   = Inl (TypeError ''Cannot read properties of null (reading name)'')"
  by (simp add: analyzeFieldTypes_def full_key_def getValueType_export_cases
      constructor_name_export_def)

text \<open>
  C7. The reduction is not what the claim says on every document the
  exporter can read. \<^verbatim>\<open>schema\<close> and its tables are plain objects, read with
  \<^verbatim>\<open>schema[fullKey]\<close> and \<^verbatim>\<open>types['null']\<close>, so a field whose name is a member of
  \<^verbatim>\<open>Object.prototype\<close> is not counted in a table of its own.

  For the one document \<^verbatim>\<open>{"__proto__": null, "a": 1}\<close> the count of the null
  is written to \<^verbatim>\<open>Object.prototype\<close>; the table of \<^verbatim>\<open>a\<close> is \<^verbatim>\<open>{number: 1}\<close>,
  with no null in it, and yet the field \<^verbatim>\<open>a\<close> is reported nullable, because
  \<^verbatim>\<open>types['null']\<close> finds the count that every object now inherits.

  For the one document \<^verbatim>\<open>{"constructor": "x"}\<close> the count is written on the
  function \<^verbatim>\<open>Object\<close>, and the path, seen once as a string, gets no entry in
  the schema at all.
\<close>

theorem analyzeFieldTypes_inherited:
  "analyzeDocuments example_runtime [[(''__proto__'', JNull), (''a'', JNumber (Fin 1))]]
       \<lparr>schema_object = [], prototype_counts = []\<rparr>
     = Inr \<lparr>schema_object = [(''a'', [(''number'', 1)])],
             prototype_counts = [(''null'', 1)]\<rparr>
   \<and> analyzeFieldTypes example_runtime [[(''__proto__'', JNull), (''a'', JNumber (Fin 1))]]
     = Inr [(''a'', \<lparr>info_type = ''number'', nullable = True, samples = 1\<rparr>)]
   \<and> analyzeFieldTypes example_runtime [[(''constructor'', JString ''x'')]] = Inr []"
proof -
  have a: "analyzeDocuments example_runtime [[(''__proto__'', JNull), (''a'', JNumber (Fin 1))]]
       \<lparr>schema_object = [], prototype_counts = []\<rparr>
     = Inr \<lparr>schema_object = [(''a'', [(''number'', 1)])],
             prototype_counts = [(''null'', 1)]\<rparr>"
    by (simp add: full_key_def record_type_def count_type_def read_count_def
        prototype_functions_def set_entry_def create_entry_def array_index_name is_digit_def
        getValueType_export_cases Let_def)
  have b: "analyzeFieldTypes example_runtime [[(''__proto__'', JNull), (''a'', JNumber (Fin 1))]]
     = Inr [(''a'', \<lparr>info_type = ''number'', nullable = True, samples = 1\<rparr>)]"
    by (simp add: analyzeFieldTypes_def a summarize_def mostCommon_def read_count_def
        count_gt_def max_count_def del: analyzeDocuments.simps)
  have c: "analyzeFieldTypes example_runtime [[(''constructor'', JString ''x'')]] = Inr []"
    by (simp add: analyzeFieldTypes_def full_key_def record_type_def prototype_functions_def
        getValueType_export_cases Let_def)
  from a b c show ?thesis by (simp only: simp_thms)
qed

section \<open>Row emission flattens the top level only\<close>

lemma flattenEntries_fold:
  assumes "''__proto__'' \<notin> fst ` set obj"
  shows "flattenEntries h obj [] acc = Inr flat
    \<longleftrightarrow> (\<exists>kxs. list_all2 (\<lambda>(k, v) (k', x). k' = k \<and> flat_value h v = Inr x) obj kxs
              \<and> flat = foldl (\<lambda>kvs (k, x). set_entry k x kvs) acc kxs)"
  using assms
proof (induction obj arbitrary: acc)
  case Nil
  show ?case by auto
next
  case (Cons kv obj)
  obtain k v where kv: "kv = (k, v)" by (cases kv)
  from Cons.prems kv have k: "k \<noteq> ''__proto__''" and rest: "''__proto__'' \<notin> fst ` set obj"
    by auto
  show ?case
  proof (cases "flat_value h v")
    case (Inl e)
    then show ?thesis by (auto simp: kv list_all2_Cons1)
  next
    case (Inr x)
    have "flattenEntries h (kv # obj) [] acc = flattenEntries h obj [] (set_entry k x acc)"
      using Inr k by (simp add: kv assign_flattened_def full_key_def)
    with Cons.IH [OF rest, of "set_entry k x acc"] Inr show ?thesis
      by (auto simp: kv list_all2_Cons1)
  qed
qed

lemma flattened_keys:
  "list_all2 (\<lambda>(k, v) (k', x). k' = k \<and> P v x) obj kxs \<Longrightarrow> map fst kxs = map fst obj"
  by (induction obj kxs rule: list_all2_induct) auto

lemma flattenObject_top_level:
  assumes "enumeration_order (map fst doc)" and "''__proto__'' \<notin> set (map fst doc)"
  shows "flattenObject h doc [] = Inr flat
    \<longleftrightarrow> list_all2 (\<lambda>(k, v) (k', x). k' = k \<and> flat_value h v = Inr x) doc flat"
proof -
  have p: "''__proto__'' \<notin> fst ` set doc" using assms(2) by simp
  have "foldl (\<lambda>kvs (k, x). set_entry k x kvs) [] kxs = kxs"
    if "list_all2 (\<lambda>(k, v) (k', x). k' = k \<and> flat_value h v = Inr x) doc kxs" for kxs
  proof -
    from that have "map fst kxs = map fst doc" by (rule flattened_keys)
    with assms(1) have "enumeration_order (map fst kxs)" by simp
    then show ?thesis by (rule fold_set_entry_id)
  qed
  with flattenEntries_fold [OF p, of h "[]" flat] show ?thesis
    by (auto simp: flattenObject_def)
qed

lemma analyzeFieldTypes_tags:
  "analyzeFieldTypes example_runtime [tags_doc] = Inr tags_schema"
  by (simp add: tags_doc_def tags_schema_def analyzeFieldTypes_def full_key_def
      record_type_def count_type_def read_count_def prototype_functions_def
      set_entry_def create_entry_def array_index_name is_digit_def
      getValueType_export_cases constructor_name_export_def summarize_def mostCommon_def
      count_gt_def max_count_def Let_def)

text \<open>
  C3, as the code has it. \<^verbatim>\<open>flattenObject\<close> does not descend. Let \<open>doc\<close> be
  the list of the properties of a document in enumeration order, with no
  field named \<^verbatim>\<open>__proto__\<close>. Whenever \<^verbatim>\<open>flattenObject\<close> returns, the result has one
  entry per top-level field, under the same key and in the same order, and
  what the entry holds is fixed by the value of the field alone: null for
  null and undefined, the JSON text for an array and for a plain object, the
  value itself for a string, a number, a boolean, a date and an ObjectId. (An
  object with an own property \<^verbatim>\<open>constructor\<close> goes by the name found there: it
  is kept as it is when the name is \<^verbatim>\<open>ObjectId\<close>, and the read throws when
  the property is null or undefined.) So the row statement lists exactly the
  columns of the top-level fields and no column that is not one of them. The
  column \<^verbatim>\<open>tags_array_name\<close> is the name that the fixed transform gives the
  schema path \<^verbatim>\<open>tags[].name\<close> in the table definition.
\<close>

theorem insert_row_top_level:
  assumes "enumeration_order (map fst doc)" and "''__proto__'' \<notin> set (map fst doc)"
  shows "(flattenObject h doc [] = Inr flat
          \<longleftrightarrow> list_all2 (\<lambda>(k, v) (k', x). k' = k \<and> flat_value h v = Inr x) doc flat)
    \<and> (flattenObject h doc [] = Inr flat \<longrightarrow>
          insert_fields flat = map (\<lambda>(k, v). backquoted (clean_name k)) doc
          \<and> (\<forall>column. column \<notin> set (map (\<lambda>(k, v). clean_name k) doc)
                \<longrightarrow> backquoted column \<notin> set (insert_fields flat))
          \<and> insert_statement h collectionName doc =
              (case format_all h (map snd flat) of
                 Inl e \<Rightarrow> Inl e
               | Inr vals \<Rightarrow>
                   Inr (''INSERT INTO '' @ backquoted collectionName @ '' (''
                        @ join '', '' (insert_fields flat) @ '') VALUES ('' @ join '', '' vals
                        @ '');'' @ [CHR 0x0A])))
    \<and> flat_value h JNull = Inr JNull
    \<and> flat_value h JUndefined = Inr JNull
    \<and> flat_value h (JArray xs) = Inr (JString (JSON_stringify h (JArray xs)))
    \<and> (map_of kvs ''constructor'' = None \<longrightarrow>
          flat_value h (JObject kvs) = Inr (JString (JSON_stringify h (JObject kvs))))
    \<and> flat_value h (JObject kvs) =
        (case constructor_name_export (JObject kvs) of
           Inl e \<Rightarrow> Inl e
         | Inr n \<Rightarrow>
             if n = JString ''ObjectId'' then Inr (JObject kvs)
             else Inr (JString (JSON_stringify h (JObject kvs))))
    \<and> flat_value h (JString s) = Inr (JString s)
    \<and> flat_value h (JNumber n) = Inr (JNumber n)
    \<and> flat_value h (JBool b) = Inr (JBool b)
    \<and> flat_value h (JDate d) = Inr (JDate d)
    \<and> flat_value h (JObjectId x) = Inr (JObjectId x)
    \<and> clean_name ''tags[].name'' = ''tags_array_name''"
proof -
  note top = flattenObject_top_level [OF assms, of h flat]
  have cols: "insert_fields flat = map (\<lambda>(k, v). backquoted (clean_name k)) doc
      \<and> (\<forall>column. column \<notin> set (map (\<lambda>(k, v). clean_name k) doc)
            \<longrightarrow> backquoted column \<notin> set (insert_fields flat))
      \<and> insert_statement h collectionName doc =
          (case format_all h (map snd flat) of
             Inl e \<Rightarrow> Inl e
           | Inr vals \<Rightarrow>
               Inr (''INSERT INTO '' @ backquoted collectionName @ '' (''
                    @ join '', '' (insert_fields flat) @ '') VALUES ('' @ join '', '' vals
                    @ '');'' @ [CHR 0x0A]))"
    if "flattenObject h doc [] = Inr flat"
  proof -
    have st: "insert_statement h collectionName doc =
          (case format_all h (map snd flat) of
             Inl e \<Rightarrow> Inl e
           | Inr vals \<Rightarrow>
               Inr (''INSERT INTO '' @ backquoted collectionName @ '' (''
                    @ join '', '' (insert_fields flat) @ '') VALUES ('' @ join '', '' vals
                    @ '');'' @ [CHR 0x0A]))"
      using that by (simp add: insert_statement_def)
    from that top have "map fst flat = map fst doc" by (auto dest: flattened_keys)
    then have "map (\<lambda>k. backquoted (clean_name k)) (map fst flat)
        = map (\<lambda>k. backquoted (clean_name k)) (map fst doc)"
      by simp
    then have i: "insert_fields flat = map (\<lambda>(k, v). backquoted (clean_name k)) doc"
      by (simp add: insert_fields_def comp_def case_prod_unfold)
    have "backquoted column \<notin> set (insert_fields flat)"
      if "column \<notin> set (map (\<lambda>(k, v). clean_name k) doc)" for column
      using that by (auto simp: i backquoted_def)
    with i st show ?thesis by blast
  qed
  have leaf: "flat_value h JNull = Inr JNull" "flat_value h JUndefined = Inr JNull"
    "flat_value h (JArray xs) = Inr (JString (JSON_stringify h (JArray xs)))"
    "flat_value h (JString s) = Inr (JString s)" "flat_value h (JNumber n) = Inr (JNumber n)"
    "flat_value h (JBool b) = Inr (JBool b)" "flat_value h (JDate d) = Inr (JDate d)"
    "flat_value h (JObjectId x) = Inr (JObjectId x)"
    by (simp_all add: flat_value_def constructor_name_export_def)
  have object: "flat_value h (JObject kvs) =
        (case constructor_name_export (JObject kvs) of
           Inl e \<Rightarrow> Inl e
         | Inr n \<Rightarrow>
             if n = JString ''ObjectId'' then Inr (JObject kvs)
             else Inr (JString (JSON_stringify h (JObject kvs))))"
    by (simp add: flat_value_def split: sum.splits)
  have plain: "map_of kvs ''constructor'' = None \<longrightarrow>
      flat_value h (JObject kvs) = Inr (JString (JSON_stringify h (JObject kvs)))"
    by (simp add: flat_value_def constructor_name_export_def)
  have name: "clean_name ''tags[].name'' = ''tags_array_name''"
    by (simp add: clean_name_def)
  from top cols leaf object plain name show ?thesis by blast
qed

lemma enumeration_order_tags: "enumeration_order (map fst tags_doc)"
  by (simp add: tags_doc_def enumeration_order_def set_entry_def create_entry_def
      array_index_name is_digit_def)

lemma tags_flat_value:
  "flat_value example_runtime
      (JArray [JObject [(''name'', JString ''a'')], JObject [(''name'', JString ''b'')]])
    = Inr (JString tags_json)"
  by (simp add: flat_value_def example_runtime_def json_string_def tags_json_def)

theorem insert_row_top_level_witness:
  "flattenObject example_runtime tags_doc [] = Inr [(''tags'', JString tags_json)]
   \<and> insert_fields [(''tags'', JString tags_json)] = [backquoted ''tags'']
   \<and> backquoted ''tags_array_name'' \<notin> set (insert_fields [(''tags'', JString tags_json)])
   \<and> insert_statement example_runtime ''items'' tags_doc
       = Inr (''INSERT INTO '' @ backquoted ''items'' @ '' ('' @ backquoted ''tags''
              @ '') VALUES ('' @ quoted tags_json @ '');'' @ [CHR 0x0A])
   \<and> flat_value example_runtime (JObject [(''name'', JString ''a'')])
       = Inr (JString (''{'' @ [CHR 0x22] @ ''name'' @ [CHR 0x22] @ '':'' @ [CHR 0x22] @ ''a''
                        @ [CHR 0x22] @ ''}''))
   \<and> create_fields tags_schema
       = Inr [''  '' @ backquoted ''tags'' @ '' JSON NOT NULL'',
              ''  '' @ backquoted ''tags_array_name'' @ '' TEXT NOT NULL'']"
proof -
  let ?flat = "[(''tags'', JString tags_json)]"
  have p: "''__proto__'' \<notin> set (map fst tags_doc)" by (simp add: tags_doc_def)
  have l: "list_all2 (\<lambda>(k, v) (k', x). k' = k \<and> flat_value example_runtime v = Inr x)
      tags_doc ?flat"
    using tags_flat_value by (simp add: tags_doc_def)
  have n: "''tags_array_name'' \<notin> set (map (\<lambda>(k, v). clean_name k) tags_doc)"
    by (simp add: tags_doc_def clean_name_def)
  have c: "create_fields tags_schema
       = Inr [''  '' @ backquoted ''tags'' @ '' JSON NOT NULL'',
              ''  '' @ backquoted ''tags_array_name'' @ '' TEXT NOT NULL'']"
    by (simp add: tags_schema_def clean_name_def mongoTypeToSQL_def)
  have m: "map_of [(''name'', JString ''a'')] ''constructor'' = None" by simp
  have q: "format_all example_runtime (map snd ?flat) = Inr [quoted tags_json]"
    by (simp add: tags_json_def quoted_def)
  have j: "JSON_stringify example_runtime (JObject [(''name'', JString ''a'')])
      = ''{'' @ [CHR 0x22] @ ''name'' @ [CHR 0x22] @ '':'' @ [CHR 0x22] @ ''a'' @ [CHR 0x22] @ ''}''"
    by (simp add: example_runtime_def json_string_def)
  from insert_row_top_level [OF enumeration_order_tags p, where h = example_runtime
      and flat = ?flat and collectionName = "''items''" and kvs = "[(''name'', JString ''a'')]"]
    l n m
  have "flattenObject example_runtime tags_doc [] = Inr ?flat"
    and "insert_fields ?flat = map (\<lambda>(k, v). backquoted (clean_name k)) tags_doc"
    and "backquoted ''tags_array_name'' \<notin> set (insert_fields ?flat)"
    and "insert_statement example_runtime ''items'' tags_doc =
          (case format_all example_runtime (map snd ?flat) of
             Inl e \<Rightarrow> Inl e
           | Inr vals \<Rightarrow>
               Inr (''INSERT INTO '' @ backquoted ''items'' @ '' (''
                    @ join '', '' (insert_fields ?flat) @ '') VALUES ('' @ join '', '' vals
                    @ '');'' @ [CHR 0x0A]))"
    and "flat_value example_runtime (JObject [(''name'', JString ''a'')])
          = Inr (JString (JSON_stringify example_runtime (JObject [(''name'', JString ''a'')])))"
    by blast+
  with c q j show ?thesis
    by (simp add: tags_doc_def clean_name_def del: format_all.simps)
qed

text \<open>
  The row of the document \<^verbatim>\<open>{"tags": [{"name": "a"}, {"name": "b"}]}\<close>: no
  path \<^verbatim>\<open>tags[].name\<close> is built and no column \<^verbatim>\<open>tags_array_name\<close> is emitted;
  the statement has the one column \<^verbatim>\<open>tags\<close>, holding the JSON text.
\<close>

theorem insert_row_not_recursive:
  "flattenObject example_runtime tags_doc [] = Inr [(''tags'', JString tags_json)]
   \<and> ''tags[].name'' \<notin> set (map fst [(''tags'', JString tags_json)])
   \<and> backquoted (clean_name ''tags[].name'')
       \<notin> set (insert_fields [(''tags'', JString tags_json)])
   \<and> generateInsertSQL example_runtime ''items'' [tags_doc] tags_schema
       = Inr (''-- Data for collection: items'' @ [CHR 0x0A]
              @ ''INSERT INTO '' @ backquoted ''items'' @ '' ('' @ backquoted ''tags''
              @ '') VALUES ('' @ quoted tags_json @ '');'' @ [CHR 0x0A] @ [CHR 0x0A])"
proof -
  have f: "flattenObject example_runtime tags_doc [] = Inr [(''tags'', JString tags_json)]"
    using tags_flat_value
    by (simp add: flattenObject_def tags_doc_def assign_flattened_def full_key_def
        set_entry_def create_entry_def array_index_name is_digit_def)
  have q: "formatValueForSQL example_runtime (JString tags_json) = Inr (quoted tags_json)"
    by (simp add: tags_json_def quoted_def)
  have g: "generateInsertSQL example_runtime ''items'' [tags_doc] tags_schema
       = Inr (''-- Data for collection: items'' @ [CHR 0x0A]
              @ ''INSERT INTO '' @ backquoted ''items'' @ '' ('' @ backquoted ''tags''
              @ '') VALUES ('' @ quoted tags_json @ '');'' @ [CHR 0x0A] @ [CHR 0x0A])"
    by (simp add: generateInsertSQL_def insert_statement_def f q insert_fields_def
        clean_name_def del: formatValueForSQL.simps)
  have c: "backquoted (clean_name ''tags[].name'')
       \<notin> set (insert_fields [(''tags'', JString tags_json)])"
    by (simp add: insert_fields_def clean_name_def backquoted_def)
  from f g c show ?thesis by simp
qed

section \<open>Batches\<close>

lemma calls_insert_each:
  "calls (insert_each c docs st) = calls st @ map InsertOne docs"
  by (induction docs arbitrary: st) (simp_all split: prod.splits)

lemma calls_submit_batch:
  "calls (submit_batch c batch st)
     = calls st @ InsertMany batch
         # (if fst (insertMany c (store st) batch) then [] else map InsertOne batch)"
  by (simp add: submit_batch_def calls_insert_each split: prod.splits)

text \<open>
  C8. With 2500 documents and batch size 1000 the loop ends after running its
  body three times, on the first thousand, the second thousand and the last
  500 documents, in this order. Each run of the body makes one bulk insert of
  its batch, followed by the single inserts of the documents of that same
  batch exactly when the bulk insert was rejected.
\<close>

theorem import_loop_2500:
  assumes "length docs = 2500"
  shows "import_loop c 1000 docs 0 st
      = Some (submit_batch c (drop 2000 docs)
               (submit_batch c (take 1000 (drop 1000 docs))
                 (submit_batch c (take 1000 docs) st)))
    \<and> map length [take 1000 docs, take 1000 (drop 1000 docs), drop 2000 docs] = [1000, 1000, 500]
    \<and> (\<forall>batch st0. calls (submit_batch c batch st0)
          = calls st0 @ InsertMany batch
              # (if fst (insertMany c (store st0) batch) then [] else map InsertOne batch))"
proof -
  let ?s1 = "submit_batch c (take 1000 docs) st"
  let ?s2 = "submit_batch c (take 1000 (drop 1000 docs)) ?s1"
  let ?s3 = "submit_batch c (drop 2000 docs) ?s2"
  have "import_loop c 1000 docs 0 st = import_loop c 1000 docs 1000 ?s1"
    by (subst import_loop.simps) (simp add: assms)
  also have "\<dots> = import_loop c 1000 docs 2000 ?s2"
    by (subst import_loop.simps) (simp add: assms)
  also have "\<dots> = import_loop c 1000 docs 3000 ?s3"
    by (subst import_loop.simps) (simp add: assms)
  also have "\<dots> = Some ?s3"
    by (subst import_loop.simps) (simp add: assms)
  finally show ?thesis using assms by (simp add: calls_submit_batch)
qed

theorem import_loop_2500_witness:
  "length example_documents = 2500
   \<and> map_option calls (import_loop poisoned 1000 example_documents 0
        \<lparr>importedCount = 0, store = (), calls = []\<rparr>)
     = Some (InsertMany (replicate 1000 1)
        # InsertMany (0 # replicate 999 2)
        # map InsertOne (0 # replicate 999 2)
        @ [InsertMany (replicate 500 3)])"
proof -
  have len: "length example_documents = 2500" by (simp add: example_documents_def)
  have b1: "take 1000 example_documents = replicate 1000 1"
    by (simp add: example_documents_def)
  have b2: "take 1000 (drop 1000 example_documents) = 0 # replicate 999 2"
    by (simp add: example_documents_def)
  have b3: "drop 2000 example_documents = replicate 500 3"
    by (simp add: example_documents_def)
  have m: "fst (insertMany poisoned s batch) = (0 \<notin> set batch)" for s batch
    by (simp add: poisoned_def)
  from import_loop_2500 [OF len, of poisoned "\<lparr>importedCount = 0, store = (), calls = []\<rparr>"]
  show ?thesis
    by (simp add: len b1 b2 b3 m)
qed

end
